theory Spec2Isabelle
  imports Main "HOL-Library.AList"
begin

unbundle bit_operations_syntax

section \<open>The FSM hex record codec of \<^verbatim>\<open>fsm_converter.py\<close>\<close>

text \<open>
  Conventions of the embedding.
  \<^item> Python integers are \<^typ>\<open>int\<close>.
  \<^item> Text that the code parses or tests letter by letter (a record, a label key, the
    machine type) is a \<^typ>\<open>string\<close> whose characters are the code points below 256, so
    \<^const>\<open>length\<close> is Python's \<^verbatim>\<open>len\<close>.
  \<^item> A symbolic name (state, input, output) is the list of its Unicode code points, type
    \<open>sym\<close>; \<open>ustr\<close> turns a literal into a name. The codec only compares names and uses
    them as dictionary keys.
  \<^item> A Python \<^verbatim>\<open>dict\<close> is an association list kept in insertion order by
    \<^const>\<open>AList.update\<close>. A Python \<^verbatim>\<open>set\<close> of integers is the duplicate-free list of
    its elements in order of insertion (\<open>set_add\<close>); the order in which Python iterates
    over it is that of its hash table, and is a parameter \<open>set_order\<close> of the decoder.
  \<^item> An exception is a value of type \<open>error\<close> on the left of a sum.
\<close>

type_synonym sym = "nat list"

definition ustr :: "string \<Rightarrow> sym" where
  "ustr s = map of_char s"

datatype key = KeySym sym | KeyInt int

datatype error = ValueError | KeyError key | IndexError

subsection \<open>Constants\<close>

abbreviation (input) TYPE_DFA_TRANSITION :: int where "TYPE_DFA_TRANSITION \<equiv> 0"
abbreviation (input) TYPE_MEALY_TRANSITION :: int where "TYPE_MEALY_TRANSITION \<equiv> 1"
abbreviation (input) TYPE_STATE_DECL :: int where "TYPE_STATE_DECL \<equiv> 2"
abbreviation (input) TYPE_NFA_MULTI :: int where "TYPE_NFA_MULTI \<equiv> 3"
abbreviation (input) EPSILON_INPUT :: int where "EPSILON_INPUT \<equiv> 65535"

subsection \<open>Python built-ins used by the codec\<close>

text \<open>\<^verbatim>\<open>f"{n:04X}"\<close>: upper-case hexadecimal, zero-padded to width 4, the sign counted in
  the width; wider numbers are printed in full.\<close>

definition hex_char :: "nat \<Rightarrow> char" where
  "hex_char d = ''0123456789ABCDEF'' ! d"

fun hex_upper :: "nat \<Rightarrow> string" where
  "hex_upper n = (if n < 16 then [hex_char n] else hex_upper (n div 16) @ [hex_char (n mod 16)])"

declare hex_upper.simps [simp del]

definition zfill :: "nat \<Rightarrow> string \<Rightarrow> string" where
  "zfill w s = replicate (w - length s) CHR ''0'' @ s"

definition fmt_04X :: "int \<Rightarrow> string" where
  "fmt_04X n = (if n < 0 then CHR ''-'' # zfill 3 (hex_upper (nat (- n)))
                else zfill 4 (hex_upper (nat n)))"

text \<open>\<^verbatim>\<open>f"{i}"\<close> for an integer: decimal digits, with a minus sign when negative.\<close>

fun dec_digits :: "nat \<Rightarrow> string" where
  "dec_digits n = (if n < 10 then [hex_char n] else dec_digits (n div 10) @ [hex_char (n mod 10)])"

declare dec_digits.simps [simp del]

definition str_int :: "int \<Rightarrow> string" where
  "str_int i = (if i < 0 then CHR ''-'' # dec_digits (nat (- i)) else dec_digits (nat i))"

text \<open>\<^verbatim>\<open>int(s, 16)\<close>. CPython skips leading white space, takes an optional sign, an
  optional \<^verbatim>\<open>0x\<close> prefix (which one underscore may follow), then hexadecimal digits
  with single underscores between digits, then trailing white space; anything else
  raises \<^verbatim>\<open>ValueError\<close> (here \<open>None\<close>). The white space below 256 is tab, line
  feed, vertical tab, form feed, carriage return, space, U+0085 and U+00A0.\<close>

definition py_isspace :: "char \<Rightarrow> bool" where
  "py_isspace c \<longleftrightarrow> c \<in> set [CHR 0x09, CHR 0x0A, CHR 0x0B, CHR 0x0C, CHR 0x0D, CHR 0x20,
                              CHR 0x85, CHR 0xA0]"

definition hex_value :: "char \<Rightarrow> int option" where
  "hex_value c = map_of
     [(CHR ''0'', 0), (CHR ''1'', 1), (CHR ''2'', 2), (CHR ''3'', 3), (CHR ''4'', 4),
      (CHR ''5'', 5), (CHR ''6'', 6), (CHR ''7'', 7), (CHR ''8'', 8), (CHR ''9'', 9),
      (CHR ''a'', 10), (CHR ''b'', 11), (CHR ''c'', 12), (CHR ''d'', 13), (CHR ''e'', 14),
      (CHR ''f'', 15), (CHR ''A'', 10), (CHR ''B'', 11), (CHR ''C'', 12), (CHR ''D'', 13),
      (CHR ''E'', 14), (CHR ''F'', 15)] c"

fun scan16 :: "int \<Rightarrow> string \<Rightarrow> (int \<times> string) option" where
  "scan16 acc [] = Some (acc, [])"
| "scan16 acc (c # cs) =
     (case hex_value c of
        Some d \<Rightarrow> scan16 (16 * acc + d) cs
      | None \<Rightarrow>
          if c = CHR ''_'' then
            (case cs of
               [] \<Rightarrow> None
             | c' # cs' \<Rightarrow> (case hex_value c' of
                              Some d \<Rightarrow> scan16 (16 * acc + d) cs'
                            | None \<Rightarrow> None))
          else Some (acc, c # cs))"

definition digits16 :: "string \<Rightarrow> (int \<times> string) option" where
  "digits16 s = (case s of
                   [] \<Rightarrow> None
                 | c # cs \<Rightarrow> (case hex_value c of Some d \<Rightarrow> scan16 d cs | None \<Rightarrow> None))"

definition strip_sign :: "string \<Rightarrow> bool \<times> string" where
  "strip_sign s = (case s of
                     [] \<Rightarrow> (False, [])
                   | c # cs \<Rightarrow> if c = CHR ''+'' then (False, cs)
                              else if c = CHR ''-'' then (True, cs)
                              else (False, c # cs))"

definition strip_prefix16 :: "string \<Rightarrow> string" where
  "strip_prefix16 s = (case s of
                         c # x # r \<Rightarrow>
                           if c = CHR ''0'' \<and> (x = CHR ''x'' \<or> x = CHR ''X'')
                           then (case r of [] \<Rightarrow> r | u # r' \<Rightarrow> if u = CHR ''_'' then r' else r)
                           else s
                       | _ \<Rightarrow> s)"

definition py_int16 :: "string \<Rightarrow> int option" where
  "py_int16 s =
     (let (neg, s1) = strip_sign (dropWhile py_isspace s) in
      (case digits16 (strip_prefix16 s1) of
         None \<Rightarrow> None
       | Some (v, rest) \<Rightarrow>
           if dropWhile py_isspace rest = [] then Some (if neg then - v else v) else None))"

subsection \<open>Record text\<close>

type_synonym rec5 = "int \<times> int \<times> int \<times> int \<times> int"

definition format_record :: "int \<Rightarrow> int \<Rightarrow> int \<Rightarrow> int \<Rightarrow> int \<Rightarrow> string" where
  "format_record rec_type field1 field2 field3 field4 =
     fmt_04X rec_type @ '' '' @ fmt_04X field1 @ '':'' @ fmt_04X field2 @ '' '' @
     fmt_04X field3 @ '':'' @ fmt_04X field4"

definition parse_record :: "string \<Rightarrow> error + rec5" where
  "parse_record record =
     (let clean = filter (\<lambda>c. c \<noteq> CHR '':'') (filter (\<lambda>c. c \<noteq> CHR '' '') record) in
      if length clean \<noteq> 20 then Inl ValueError
      else
        (case (py_int16 (take 4 clean), py_int16 (take 4 (drop 4 clean)),
               py_int16 (take 4 (drop 8 clean)), py_int16 (take 4 (drop 12 clean)),
               py_int16 (take 4 (drop 16 clean))) of
           (Some rec_type, Some field1, Some field2, Some field3, Some field4) \<Rightarrow>
             Inr (rec_type, field1, field2, field3, field4)
         | _ \<Rightarrow> Inl ValueError))"


text \<open>\<^verbatim>\<open>str.lower()\<close> on code points below 256.\<close>

definition lower_char :: "char \<Rightarrow> char" where
  "lower_char c = (let n = (of_char c :: nat) in
                   if (65 \<le> n \<and> n \<le> 90) \<or> (192 \<le> n \<and> n \<le> 222 \<and> n \<noteq> 215)
                   then char_of (n + 32) else c)"

definition lower :: "string \<Rightarrow> string" where
  "lower s = map lower_char s"

text \<open>Raising and propagating exceptions; a \<^verbatim>\<open>for\<close> loop that appends to a list
  (\<open>collect\<close>) or builds one element per iteration (\<open>mapM\<close>) stops at the first
  exception.\<close>

definition ebind :: "error + 'a \<Rightarrow> ('a \<Rightarrow> error + 'b) \<Rightarrow> error + 'b" where
  "ebind m f = (case m of Inl e \<Rightarrow> Inl e | Inr x \<Rightarrow> f x)"

fun collect :: "('a \<Rightarrow> error + 'b list) \<Rightarrow> 'a list \<Rightarrow> error + 'b list" where
  "collect f [] = Inr []"
| "collect f (x # xs) = ebind (f x) (\<lambda>ys. ebind (collect f xs) (\<lambda>zs. Inr (ys @ zs)))"

definition mapM :: "('a \<Rightarrow> error + 'b) \<Rightarrow> 'a list \<Rightarrow> error + 'b list" where
  "mapM f xs = collect (\<lambda>x. ebind (f x) (\<lambda>y. Inr [y])) xs"

text \<open>\<^verbatim>\<open>d[k]\<close> raises \<^verbatim>\<open>KeyError\<close> on a missing key; \<^verbatim>\<open>d.get(k)\<close> is
  \<^const>\<open>map_of\<close>, and \<^verbatim>\<open>d.get(k, default)\<close> is \<open>get_default\<close> of it.\<close>

definition getitem_s :: "(sym \<times> 'v) list \<Rightarrow> sym \<Rightarrow> error + 'v" where
  "getitem_s d k = (case map_of d k of None \<Rightarrow> Inl (KeyError (KeySym k)) | Some v \<Rightarrow> Inr v)"

definition getitem_i :: "(int \<times> 'v) list \<Rightarrow> int \<Rightarrow> error + 'v" where
  "getitem_i d k = (case map_of d k of None \<Rightarrow> Inl (KeyError (KeyInt k)) | Some v \<Rightarrow> Inr v)"

definition get_default :: "'a option \<Rightarrow> 'a \<Rightarrow> 'a" where
  "get_default v d = (case v of None \<Rightarrow> d | Some x \<Rightarrow> x)"

text \<open>\<^verbatim>\<open>s.add(x)\<close> on a set.\<close>

definition set_add :: "int \<Rightarrow> int list \<Rightarrow> int list" where
  "set_add x xs = (if x \<in> set xs then xs else xs @ [x])"

subsection \<open>The FSM structure\<close>

text \<open>A transition is the dictionary \<^verbatim>\<open>{"from", "input", "to", "output"}\<close>. \<open>t_to\<close> is a
  name or a list of names. \<open>None\<close> in \<open>t_input\<close> is an absent key or \<^verbatim>\<open>null\<close>, which
  \<^verbatim>\<open>t.get("input")\<close> does not tell apart. \<^verbatim>\<open>t.get("output", "")\<close> does tell them
  apart, so \<open>t_output\<close> has the three cases.\<close>

datatype target = Single sym | Multi "sym list"

datatype 'a jfield = Absent | Null | Value 'a

record transition =
  t_from :: sym
  t_input :: "sym option"
  t_to :: target
  t_output :: "sym jfield"

record FSM =
  fsm_type :: string
  name :: string
  description :: string
  states :: "sym list"
  alphabet :: "sym list"
  initial :: "sym option"
  accepting :: "sym list"
  transitions :: "transition list"
  state_outputs :: "(sym \<times> sym) list"
  output_alphabet :: "sym list"

text \<open>The parsed JSON object given to \<open>json_to_fsm\<close>; \<open>None\<close> is an absent key.\<close>

record json_data =
  j_type :: "string option"
  j_name :: "string option"
  j_description :: "string option"
  j_states :: "sym list option"
  j_alphabet :: "sym list option"
  j_initial :: "sym option"
  j_accepting :: "sym list option"
  j_transitions :: "transition list option"
  j_state_outputs :: "(sym \<times> sym) list option"
  j_output_alphabet :: "sym list option"

definition json_to_fsm :: "json_data \<Rightarrow> error + FSM" where
  "json_to_fsm data =
     (let fsm = \<lparr> fsm_type = lower (get_default (j_type data) ''dfa''),
                  name = get_default (j_name data) [],
                  description = get_default (j_description data) [],
                  states = get_default (j_states data) [],
                  alphabet = get_default (j_alphabet data) [],
                  initial = j_initial data,
                  accepting = get_default (j_accepting data) [],
                  transitions = get_default (j_transitions data) [],
                  state_outputs = get_default (j_state_outputs data) [],
                  output_alphabet = get_default (j_output_alphabet data) [] \<rparr>
      in if length (states fsm) > 65535 then Inl ValueError
         else if length (alphabet fsm) > 65534 then Inl ValueError
         else if length (output_alphabet fsm) > 65535 then Inl ValueError
         else Inr fsm)"

subsection \<open>Encoder: \<open>fsm_to_hex\<close>\<close>

text \<open>\<^verbatim>\<open>{s: i for i, s in enumerate(xs)}\<close> and \<^verbatim>\<open>{i: s for s, i in d.items()}\<close>.\<close>

definition index_dict :: "sym list \<Rightarrow> (sym \<times> int) list" where
  "index_dict xs = fold (\<lambda>(i, s) d. AList.update s (int i) d) (List.enumerate 0 xs) []"

definition reverse_dict :: "(sym \<times> int) list \<Rightarrow> (int \<times> sym) list" where
  "reverse_dict d = fold (\<lambda>(s, i) r. AList.update i s r) d []"

definition state_flags :: "FSM \<Rightarrow> sym \<Rightarrow> int" where
  "state_flags fsm s =
     (let flags = (if Some s = initial fsm then 0 OR 1 else 0)
      in if s \<in> set (accepting fsm) then flags OR 2 else flags)"

definition state_decl_recs :: "FSM \<Rightarrow> (sym \<times> int) list \<Rightarrow> (sym \<times> int) list \<Rightarrow> error + rec5 list" where
  "state_decl_recs fsm state_idx output_idx =
     (if fsm_type fsm = ''moore'' then
        collect (\<lambda>state.
          ebind (getitem_s state_idx state) (\<lambda>sid.
            let flags = state_flags fsm state;
                out = (case map_of (state_outputs fsm) state of
                         None \<Rightarrow> 0
                       | Some state_out \<Rightarrow>
                           (case map_of output_idx state_out of None \<Rightarrow> 0 | Some n \<Rightarrow> n + 1))
            in Inr [(TYPE_STATE_DECL, sid, flags, out, 0)])) (states fsm)
      else
        collect (\<lambda>state.
          let flags = state_flags fsm state in
          if flags \<noteq> 0
          then ebind (getitem_s state_idx state) (\<lambda>sid. Inr [(TYPE_STATE_DECL, sid, flags, 0, 0)])
          else Inr []) (states fsm))"

text \<open>The two spellings of the epsilon marker: the word, and the Greek letter U+03B5.\<close>

definition is_epsilon :: "sym \<Rightarrow> bool" where
  "is_epsilon s \<longleftrightarrow> s = ustr ''epsilon'' \<or> s = [0x3B5]"

definition input_id :: "(sym \<times> int) list \<Rightarrow> sym option \<Rightarrow> error + int" where
  "input_id input_idx inp_sym =
     (case inp_sym of
        None \<Rightarrow> Inr EPSILON_INPUT
      | Some s \<Rightarrow> if is_epsilon s then Inr EPSILON_INPUT else getitem_s input_idx s)"

fun targets_of :: "target \<Rightarrow> sym list" where
  "targets_of (Single s) = [s]"
| "targets_of (Multi ts) = ts"

definition nfa_recs :: "(sym \<times> int) list \<Rightarrow> int \<Rightarrow> int \<Rightarrow> sym list \<Rightarrow> error + rec5 list" where
  "nfa_recs state_idx src inp targets =
     collect (\<lambda>(i, target).
       ebind (getitem_s state_idx target) (\<lambda>tgt.
         Inr [(TYPE_NFA_MULTI, src, inp, tgt,
               if int i < int (length targets) - 1 then 1 else 0)]))
       (List.enumerate 0 targets)"

text \<open>\<^verbatim>\<open>output_idx.get(t.get("output", ""), 0)\<close>: an absent key looks the empty name up, and
  \<^verbatim>\<open>null\<close> is no key of the dictionary.\<close>

definition output_id :: "(sym \<times> int) list \<Rightarrow> sym jfield \<Rightarrow> int" where
  "output_id output_idx out =
     (case out of
        Absent \<Rightarrow> get_default (map_of output_idx []) 0
      | Null \<Rightarrow> 0
      | Value v \<Rightarrow> get_default (map_of output_idx v) 0)"

definition transition_recs ::
  "FSM \<Rightarrow> (sym \<times> int) list \<Rightarrow> (sym \<times> int) list \<Rightarrow> (sym \<times> int) list \<Rightarrow>
   transition \<Rightarrow> error + rec5 list" where
  "transition_recs fsm state_idx input_idx output_idx t =
     ebind (getitem_s state_idx (t_from t)) (\<lambda>src.
     ebind (input_id input_idx (t_input t)) (\<lambda>inp.
       let targets = targets_of (t_to t) in
       if fsm_type fsm = ''mealy'' then
         (case targets of
            [] \<Rightarrow> Inl IndexError
          | first # _ \<Rightarrow>
              ebind (getitem_s state_idx first) (\<lambda>tgt.
                Inr [(TYPE_MEALY_TRANSITION, src, inp, tgt, output_id output_idx (t_output t))]))
       else if length targets = 1 then
         ebind (getitem_s state_idx (targets ! 0)) (\<lambda>tgt.
           Inr [(TYPE_DFA_TRANSITION, src, inp, tgt, 0)])
       else nfa_recs state_idx src inp targets))"

text \<open>The records of \<open>fsm_to_hex\<close> as field tuples, in emission order: the source formats
  each tuple with \<open>format_record\<close> as it appends it.\<close>

definition fsm_to_recs :: "FSM \<Rightarrow> error + rec5 list" where
  "fsm_to_recs fsm =
     (let state_idx = index_dict (states fsm);
          input_idx = index_dict (alphabet fsm);
          output_idx = index_dict (output_alphabet fsm)
      in ebind (state_decl_recs fsm state_idx output_idx) (\<lambda>decls.
         ebind (collect (transition_recs fsm state_idx input_idx output_idx) (transitions fsm))
           (\<lambda>trans. Inr (decls @ trans))))"

definition format_rec5 :: "rec5 \<Rightarrow> string" where
  "format_rec5 r = (case r of (rec_type, f1, f2, f3, f4) \<Rightarrow> format_record rec_type f1 f2 f3 f4)"

definition fsm_to_hex ::
  "FSM \<Rightarrow> error + (string list \<times> (int \<times> sym) list \<times> (int \<times> sym) list \<times> (int \<times> sym) list)" where
  "fsm_to_hex fsm =
     (let state_names = reverse_dict (index_dict (states fsm));
          input_names = reverse_dict (index_dict (alphabet fsm));
          output_names = reverse_dict (index_dict (output_alphabet fsm))
      in ebind (fsm_to_recs fsm) (\<lambda>recs.
           Inr (map format_rec5 recs, state_names, input_names, output_names)))"

subsection \<open>Decoder: \<open>hex_to_fsm\<close>\<close>

text \<open>The label table: the \<^verbatim>\<open>[fsm]\<close> metadata and the three id-to-name sections, whose
  keys are strings (parsed with \<^verbatim>\<open>int(k, 16)\<close>) or integers.\<close>

datatype label_key = KStr string | KInt int

record labels =
  l_type :: "string option"
  l_name :: "string option"
  l_description :: "string option"
  l_states :: "(label_key \<times> sym) list"
  l_inputs :: "(label_key \<times> sym) list"
  l_outputs :: "(label_key \<times> sym) list"

definition no_labels :: labels where
  "no_labels = \<lparr> l_type = None, l_name = None, l_description = None,
                  l_states = [], l_inputs = [], l_outputs = [] \<rparr>"

definition key_index :: "label_key \<Rightarrow> error + int" where
  "key_index k = (case k of
                    KStr s \<Rightarrow> (case py_int16 s of None \<Rightarrow> Inl ValueError | Some i \<Rightarrow> Inr i)
                  | KInt i \<Rightarrow> Inr i)"

fun label_dict :: "(label_key \<times> sym) list \<Rightarrow> (int \<times> sym) list \<Rightarrow> error + (int \<times> sym) list" where
  "label_dict [] d = Inr d"
| "label_dict ((k, v) # kvs) d = ebind (key_index k) (\<lambda>idx. label_dict kvs (AList.update idx v d))"

text \<open>Transitions over numeric ids, as the decoding loop collects them.\<close>

datatype itarget = ISingle int | IMulti "int list"

record itransition =
  it_from :: int
  it_input :: "int option"
  it_to :: itarget
  it_output :: "int option"

text \<open>The local variables of the decoding loop.\<close>

record dstate =
  state_ids :: "int list"
  input_ids :: "int list"
  output_ids :: "int list"
  has_mealy :: bool
  has_nfa_multi :: bool
  has_moore_outputs :: bool
  initial_state :: "int option"
  accepting_states :: "int list"
  state_outputs_d :: "(int \<times> int) list"
  transitions_d :: "itransition list"
  nfa_pending :: "(int \<times> int \<times> int list) option"

definition init_dstate :: dstate where
  "init_dstate = \<lparr> state_ids = [], input_ids = [], output_ids = [], has_mealy = False,
                    has_nfa_multi = False, has_moore_outputs = False, initial_state = None,
                    accepting_states = [], state_outputs_d = [], transitions_d = [],
                    nfa_pending = None \<rparr>"

definition input_of :: "int \<Rightarrow> int option" where
  "input_of inp = (if inp \<noteq> EPSILON_INPUT then Some inp else None)"

definition add_input :: "int \<Rightarrow> int list \<Rightarrow> int list" where
  "add_input inp ids = (if inp \<noteq> EPSILON_INPUT then set_add inp ids else ids)"

definition flush_pending :: "int \<times> int \<times> int list \<Rightarrow> itransition" where
  "flush_pending p = (case p of (src, inp, tgts) \<Rightarrow>
     \<lparr> it_from = src, it_input = input_of inp, it_to = IMulti tgts, it_output = None \<rparr>)"

definition step_state_decl :: "dstate \<Rightarrow> int \<Rightarrow> int \<Rightarrow> int \<Rightarrow> dstate" where
  "step_state_decl st state_id flags output_val =
     (let st1 = st \<lparr> state_ids := set_add state_id (state_ids st) \<rparr>;
          st2 = (if flags AND 1 \<noteq> 0 then st1 \<lparr> initial_state := Some state_id \<rparr> else st1);
          st3 = (if flags AND 2 \<noteq> 0
                 then st2 \<lparr> accepting_states := set_add state_id (accepting_states st2) \<rparr>
                 else st2)
      in if output_val \<noteq> 0
         then st3 \<lparr> has_moore_outputs := True,
                    state_outputs_d := AList.update state_id (output_val - 1) (state_outputs_d st3),
                    output_ids := set_add (output_val - 1) (output_ids st3) \<rparr>
         else st3)"

definition step_dfa :: "dstate \<Rightarrow> int \<Rightarrow> int \<Rightarrow> int \<Rightarrow> dstate" where
  "step_dfa st src inp tgt =
     st \<lparr> state_ids := set_add tgt (set_add src (state_ids st)),
          input_ids := add_input inp (input_ids st),
          transitions_d := transitions_d st @
            [\<lparr> it_from = src, it_input = input_of inp, it_to = ISingle tgt, it_output = None \<rparr>] \<rparr>"

definition step_mealy :: "dstate \<Rightarrow> int \<Rightarrow> int \<Rightarrow> int \<Rightarrow> int \<Rightarrow> dstate" where
  "step_mealy st src inp tgt out =
     st \<lparr> has_mealy := True,
          state_ids := set_add tgt (set_add src (state_ids st)),
          input_ids := add_input inp (input_ids st),
          output_ids := set_add out (output_ids st),
          transitions_d := transitions_d st @
            [\<lparr> it_from = src, it_input = input_of inp, it_to = ISingle tgt, it_output = Some out \<rparr>] \<rparr>"

definition step_nfa :: "dstate \<Rightarrow> int \<Rightarrow> int \<Rightarrow> int \<Rightarrow> int \<Rightarrow> dstate" where
  "step_nfa st src inp tgt cont =
     (let st1 = st \<lparr> has_nfa_multi := True,
                     state_ids := set_add tgt (set_add src (state_ids st)),
                     input_ids := add_input inp (input_ids st) \<rparr>;
          (flushed, pending) =
            (case nfa_pending st of
               None \<Rightarrow> ([], (src, inp, [tgt]))
             | Some (psrc, pinp, ptgts) \<Rightarrow>
                 if psrc \<noteq> src \<or> pinp \<noteq> inp
                 then ([flush_pending (psrc, pinp, ptgts)], (src, inp, [tgt]))
                 else ([], (psrc, pinp, ptgts @ [tgt])))
      in if cont = 0
         then st1 \<lparr> transitions_d := transitions_d st @ flushed @ [flush_pending pending],
                    nfa_pending := None \<rparr>
         else st1 \<lparr> transitions_d := transitions_d st @ flushed,
                    nfa_pending := Some pending \<rparr>)"

definition decode_step :: "dstate \<Rightarrow> rec5 \<Rightarrow> dstate" where
  "decode_step st r = (case r of (rec_type, f1, f2, f3, f4) \<Rightarrow>
     if rec_type = TYPE_STATE_DECL then step_state_decl st f1 f2 f3
     else if rec_type = TYPE_DFA_TRANSITION then step_dfa st f1 f2 f3
     else if rec_type = TYPE_MEALY_TRANSITION then step_mealy st f1 f2 f3 f4
     else if rec_type = TYPE_NFA_MULTI then step_nfa st f1 f2 f3 f4
     else st)"

fun decode_loop :: "dstate \<Rightarrow> string list \<Rightarrow> error + dstate" where
  "decode_loop st [] = Inr st"
| "decode_loop st (record # records) =
     ebind (parse_record record) (\<lambda>r. decode_loop (decode_step st r) records)"

definition final_flush :: "dstate \<Rightarrow> dstate" where
  "final_flush st = (case nfa_pending st of
                       None \<Rightarrow> st
                     | Some p \<Rightarrow> st \<lparr> transitions_d := transitions_d st @ [flush_pending p] \<rparr>)"

definition infer_type :: "dstate \<Rightarrow> string" where
  "infer_type st =
     (if has_mealy st then ''mealy''
      else if has_moore_outputs st then ''moore''
      else if has_nfa_multi st \<or> (\<exists>t \<in> set (transitions_d st). it_input t = None) then ''nfa''
      else ''dfa'')"

definition decoded_type :: "labels \<Rightarrow> dstate \<Rightarrow> string" where
  "decoded_type lb st = (case l_type lb of
                           None \<Rightarrow> infer_type st
                         | Some t \<Rightarrow> if t \<noteq> [] then t else infer_type st)"

text \<open>\<^verbatim>\<open>state_labels.get(i, f"S{i}")\<close> and its two siblings.\<close>

definition symbol_name :: "string \<Rightarrow> (int \<times> sym) list \<Rightarrow> int \<Rightarrow> sym" where
  "symbol_name prefix lbl i = get_default (map_of lbl i) (ustr (prefix @ str_int i))"

definition name_map :: "string \<Rightarrow> (int \<times> sym) list \<Rightarrow> int list \<Rightarrow> (int \<times> sym) list" where
  "name_map prefix lbl ids = map (\<lambda>i. (i, symbol_name prefix lbl i)) ids"

definition name_target :: "(int \<times> sym) list \<Rightarrow> itarget \<Rightarrow> error + target" where
  "name_target state_map tg =
     (case tg of
        IMulti xs \<Rightarrow> ebind (mapM (getitem_i state_map) xs) (\<lambda>ns. Inr (Multi ns))
      | ISingle x \<Rightarrow> ebind (getitem_i state_map x) (\<lambda>n. Inr (Single n)))"

definition name_transition ::
  "(int \<times> sym) list \<Rightarrow> (int \<times> sym) list \<Rightarrow> (int \<times> sym) list \<Rightarrow> itransition \<Rightarrow>
   error + transition" where
  "name_transition state_map input_map output_map t =
     ebind (getitem_i state_map (it_from t)) (\<lambda>src.
     ebind (name_target state_map (it_to t)) (\<lambda>tgt.
     ebind (case it_output t of
              None \<Rightarrow> Inr Absent
            | Some out \<Rightarrow> ebind (getitem_i output_map out) (\<lambda>n. Inr (Value n))) (\<lambda>out.
       Inr \<lparr> t_from = src,
             t_input = (case it_input t of None \<Rightarrow> None | Some i \<Rightarrow> map_of input_map i),
             t_to = tgt, t_output = out \<rparr>)))"

fun name_outputs ::
  "(int \<times> sym) list \<Rightarrow> (int \<times> sym) list \<Rightarrow> (int \<times> int) list \<Rightarrow> (sym \<times> sym) list \<Rightarrow>
   error + (sym \<times> sym) list" where
  "name_outputs state_map output_map [] d = Inr d"
| "name_outputs state_map output_map ((k, v) # kvs) d =
     ebind (getitem_i state_map k) (\<lambda>sn.
     ebind (getitem_i output_map v) (\<lambda>on.
       name_outputs state_map output_map kvs (AList.update sn on d)))"

text \<open>The end of \<open>hex_to_fsm\<close>, from the type inference on. \<open>set_order\<close> is the order in
  which \<^verbatim>\<open>[state_map[s] for s in accepting_states]\<close> meets the elements of the set.\<close>

definition build_fsm ::
  "(int list \<Rightarrow> int list) \<Rightarrow> labels \<Rightarrow> (int \<times> sym) list \<Rightarrow> (int \<times> sym) list \<Rightarrow>
   (int \<times> sym) list \<Rightarrow> dstate \<Rightarrow> error + FSM" where
  "build_fsm set_order lb state_labels input_labels output_labels st =
     (let ty = decoded_type lb st;
          state_map = name_map ''S'' state_labels (state_ids st);
          input_map = name_map ''i'' input_labels (input_ids st);
          output_map = name_map ''o'' output_labels (output_ids st)
      in ebind (mapM (name_transition state_map input_map output_map) (transitions_d st))
           (\<lambda>named_transitions.
         ebind (mapM (getitem_i state_map) (set_order (accepting_states st))) (\<lambda>acc.
         ebind (if ty = ''moore''
                then name_outputs state_map output_map (state_outputs_d st) []
                else Inr []) (\<lambda>outs.
           Inr \<lparr> fsm_type = ty,
                 name = get_default (l_name lb) [],
                 description = get_default (l_description lb) [],
                 states = map (symbol_name ''S'' state_labels) (sort (state_ids st)),
                 alphabet = map (symbol_name ''i'' input_labels) (sort (input_ids st)),
                 initial = (case initial_state st of None \<Rightarrow> None | Some i \<Rightarrow> map_of state_map i),
                 accepting = acc,
                 transitions = named_transitions,
                 state_outputs = outs,
                 output_alphabet = (if output_ids st \<noteq> []
                                    then map (symbol_name ''o'' output_labels) (sort (output_ids st))
                                    else []) \<rparr>))))"

definition hex_to_fsm ::
  "(int list \<Rightarrow> int list) \<Rightarrow> string list \<Rightarrow> labels option \<Rightarrow> error + FSM" where
  "hex_to_fsm set_order records lbls =
     (let lb = get_default lbls no_labels in
      ebind (label_dict (l_states lb) []) (\<lambda>state_labels.
      ebind (label_dict (l_inputs lb) []) (\<lambda>input_labels.
      ebind (label_dict (l_outputs lb) []) (\<lambda>output_labels.
      ebind (decode_loop init_dstate records) (\<lambda>st.
        build_fsm set_order lb state_labels input_labels output_labels (final_flush st))))))"

text \<open>The label table that \<open>generate_labels_toml\<close> writes for a model and the encoder's
  three maps, as a TOML reader returns it: the machine type, the name and the
  description when not empty, and one entry \<^verbatim>\<open>0xNNNN = "name"\<close> per id.\<close>

definition label_section :: "(int \<times> sym) list \<Rightarrow> (label_key \<times> sym) list" where
  "label_section m = map (\<lambda>idx. (KStr (''0x'' @ fmt_04X idx), get_default (map_of m idx) []))
                         (sort (map fst m))"

definition labels_from ::
  "FSM \<Rightarrow> (int \<times> sym) list \<Rightarrow> (int \<times> sym) list \<Rightarrow> (int \<times> sym) list \<Rightarrow> labels" where
  "labels_from fsm state_map input_map output_map =
     \<lparr> l_type = Some (fsm_type fsm),
       l_name = (if name fsm \<noteq> [] then Some (name fsm) else None),
       l_description = (if description fsm \<noteq> [] then Some (description fsm) else None),
       l_states = label_section state_map,
       l_inputs = label_section input_map,
       l_outputs = label_section output_map \<rparr>"

subsection \<open>Predicates used in the statements\<close>


text \<open>What the parser needs to know about an upper-case hexadecimal digit.\<close>

definition hex_ok :: "nat \<Rightarrow> bool" where
  "hex_ok d \<longleftrightarrow> hex_value (hex_char d) = Some (int d) \<and> \<not> py_isspace (hex_char d) \<and>
     hex_char d \<noteq> CHR ''+'' \<and> hex_char d \<noteq> CHR ''-'' \<and> hex_char d \<noteq> CHR ''_'' \<and>
     hex_char d \<noteq> CHR ''x'' \<and> hex_char d \<noteq> CHR ''X'' \<and> hex_char d \<noteq> CHR '' '' \<and> hex_char d \<noteq> CHR '':''"

text \<open>Iterating over a Python set meets every element, once.\<close>

definition set_iteration :: "(int list \<Rightarrow> int list) \<Rightarrow> bool" where
  "set_iteration set_order \<longleftrightarrow> (\<forall>xs. distinct xs \<longrightarrow> distinct (set_order xs) \<and> set (set_order xs) = set xs)"

text \<open>The decoding loop over records that are already parsed.\<close>

definition decode_recs :: "dstate \<Rightarrow> rec5 list \<Rightarrow> dstate" where
  "decode_recs st recs = fold (\<lambda>r s. decode_step s r) recs st"

text \<open>A transition cut down to its first target.\<close>

definition keep_first :: "transition \<Rightarrow> transition" where
  "keep_first t = (case targets_of (t_to t) of [] \<Rightarrow> t | first # _ \<Rightarrow> t \<lparr> t_to := Single first \<rparr>)"

text \<open>What the encoder has to look up for a transition of a Mealy machine: its source, its
  input symbol unless that is epsilon, and the first of its targets.\<close>

definition mealy_resolvable :: "FSM \<Rightarrow> transition \<Rightarrow> bool" where
  "mealy_resolvable fsm t \<longleftrightarrow>
     t_from t \<in> set (states fsm) \<and>
     (case t_input t of None \<Rightarrow> True | Some s \<Rightarrow> is_epsilon s \<or> s \<in> set (alphabet fsm)) \<and>
     (case targets_of (t_to t) of [] \<Rightarrow> False | first # _ \<Rightarrow> first \<in> set (states fsm))"

text \<open>The invariant of the decoding loop: every id that the collected data mentions is in
  the matching set of ids.\<close>

fun itargets :: "itarget \<Rightarrow> int list" where
  "itargets (ISingle x) = [x]"
| "itargets (IMulti xs) = xs"

definition it_ok :: "dstate \<Rightarrow> itransition \<Rightarrow> bool" where
  "it_ok st t \<longleftrightarrow>
     it_from t \<in> set (state_ids st) \<and> set (itargets (it_to t)) \<subseteq> set (state_ids st) \<and>
     (\<forall>i. it_input t = Some i \<longrightarrow> i \<in> set (input_ids st)) \<and>
     (\<forall>v. it_output t = Some v \<longrightarrow> v \<in> set (output_ids st))"

definition dstate_ok :: "dstate \<Rightarrow> bool" where
  "dstate_ok st \<longleftrightarrow>
     (\<forall>i. initial_state st = Some i \<longrightarrow> i \<in> set (state_ids st)) \<and>
     set (accepting_states st) \<subseteq> set (state_ids st) \<and>
     (\<forall>t \<in> set (transitions_d st). it_ok st t) \<and>
     (\<forall>p. nfa_pending st = Some p \<longrightarrow> it_ok st (flush_pending p)) \<and>
     (\<forall>kv \<in> set (state_outputs_d st). fst kv \<in> set (state_ids st) \<and> snd kv \<in> set (output_ids st)) \<and>
     distinct (state_ids st) \<and> distinct (input_ids st) \<and> distinct (output_ids st) \<and>
     distinct (accepting_states st)"

text \<open>The model that the decoder builds from the final state of its loop, written without
  the dictionary lookups that could raise.\<close>

definition name_it :: "(int \<Rightarrow> sym) \<Rightarrow> (int \<Rightarrow> sym) \<Rightarrow> (int \<Rightarrow> sym) \<Rightarrow> itransition \<Rightarrow> transition" where
  "name_it sname iname oname t =
     \<lparr> t_from = sname (it_from t),
       t_input = map_option iname (it_input t),
       t_to = (case it_to t of ISingle x \<Rightarrow> Single (sname x) | IMulti xs \<Rightarrow> Multi (map sname xs)),
       t_output = (case it_output t of None \<Rightarrow> Absent | Some v \<Rightarrow> Value (oname v)) \<rparr>"

definition fsm_of_dstate ::
  "(int list \<Rightarrow> int list) \<Rightarrow> labels \<Rightarrow> (int \<times> sym) list \<Rightarrow> (int \<times> sym) list \<Rightarrow>
   (int \<times> sym) list \<Rightarrow> dstate \<Rightarrow> FSM" where
  "fsm_of_dstate set_order lb sl il ol st =
     \<lparr> fsm_type = decoded_type lb st,
       name = get_default (l_name lb) [],
       description = get_default (l_description lb) [],
       states = map (symbol_name ''S'' sl) (sort (state_ids st)),
       alphabet = map (symbol_name ''i'' il) (sort (input_ids st)),
       initial = map_option (symbol_name ''S'' sl) (initial_state st),
       accepting = map (symbol_name ''S'' sl) (set_order (accepting_states st)),
       transitions = map (name_it (symbol_name ''S'' sl) (symbol_name ''i'' il)
                                  (symbol_name ''o'' ol)) (transitions_d st),
       state_outputs = (if decoded_type lb st = ''moore''
                        then fold (\<lambda>(k, v) d. AList.update (symbol_name ''S'' sl k)
                                                            (symbol_name ''o'' ol v) d)
                                  (state_outputs_d st) []
                        else []),
       output_alphabet = map (symbol_name ''o'' ol) (sort (output_ids st)) \<rparr>"

text \<open>What \<open>step_nfa\<close> does with the pending group: the group the record joins, and the
  group it flushes on the way.\<close>

definition nfa_group :: "dstate \<Rightarrow> int \<Rightarrow> int \<Rightarrow> int \<Rightarrow> int \<times> int \<times> int list" where
  "nfa_group st src inp tgt =
     (case nfa_pending st of
        None \<Rightarrow> (src, inp, [tgt])
      | Some (psrc, pinp, ptgts) \<Rightarrow>
          if psrc \<noteq> src \<or> pinp \<noteq> inp then (src, inp, [tgt]) else (psrc, pinp, ptgts @ [tgt]))"

definition nfa_flushed :: "dstate \<Rightarrow> int \<Rightarrow> int \<Rightarrow> itransition list" where
  "nfa_flushed st src inp =
     (case nfa_pending st of
        None \<Rightarrow> []
      | Some (psrc, pinp, ptgts) \<Rightarrow>
          if psrc \<noteq> src \<or> pinp \<noteq> inp then [flush_pending (psrc, pinp, ptgts)] else [])"

text \<open>Inputs that the decoder can read: every record text parses, and every key of the
  label table is an integer or parses as one.\<close>

definition records_ok :: "string list \<Rightarrow> bool" where
  "records_ok records \<longleftrightarrow> (\<forall>r \<in> set records. \<exists>x. parse_record r = Inr x)"

definition keys_ok :: "(label_key \<times> sym) list \<Rightarrow> bool" where
  "keys_ok kvs \<longleftrightarrow> (\<forall>kv \<in> set kvs. \<exists>i. key_index (fst kv) = Inr i)"

definition labels_ok :: "labels option \<Rightarrow> bool" where
  "labels_ok lbls \<longleftrightarrow>
     (case lbls of
        None \<Rightarrow> True
      | Some lb \<Rightarrow> keys_ok (l_states lb) \<and> keys_ok (l_inputs lb) \<and> keys_ok (l_outputs lb))"

text \<open>References of a model that all point into its own tables.\<close>

definition well_formed :: "FSM \<Rightarrow> bool" where
  "well_formed m \<longleftrightarrow>
     (\<forall>s. initial m = Some s \<longrightarrow> s \<in> set (states m)) \<and>
     set (accepting m) \<subseteq> set (states m) \<and>
     (\<forall>t \<in> set (transitions m).
        t_from t \<in> set (states m) \<and>
        set (targets_of (t_to t)) \<subseteq> set (states m) \<and>
        (\<forall>x. t_input t = Some x \<longrightarrow> x \<in> set (alphabet m)) \<and>
        (\<forall>v. t_output t = Value v \<longrightarrow> v \<in> set (output_alphabet m))) \<and>
     (\<forall>kv \<in> set (state_outputs m). fst kv \<in> set (states m) \<and> snd kv \<in> set (output_alphabet m))"

text \<open>What the type inference looks for in the records.\<close>

definition saw_mealy :: "rec5 list \<Rightarrow> bool" where
  "saw_mealy recs \<longleftrightarrow>
     (\<exists>r \<in> set recs. case r of (ty, f1, f2, f3, f4) \<Rightarrow> ty = TYPE_MEALY_TRANSITION)"

definition saw_state_output :: "rec5 list \<Rightarrow> bool" where
  "saw_state_output recs \<longleftrightarrow>
     (\<exists>r \<in> set recs. case r of (ty, f1, f2, f3, f4) \<Rightarrow> ty = TYPE_STATE_DECL \<and> f3 \<noteq> 0)"

definition saw_nfa_multi :: "rec5 list \<Rightarrow> bool" where
  "saw_nfa_multi recs \<longleftrightarrow>
     (\<exists>r \<in> set recs. case r of (ty, f1, f2, f3, f4) \<Rightarrow> ty = TYPE_NFA_MULTI)"


section \<open>Lemmas\<close>

subsection \<open>Evaluation rules\<close>

lemma hex_upper_small: "n < 16 \<Longrightarrow> hex_upper n = [hex_char n]"
  by (simp add: hex_upper.simps)

lemma hex_upper_big: "\<not> n < 16 \<Longrightarrow> hex_upper n = hex_upper (n div 16) @ [hex_char (n mod 16)]"
  by (subst hex_upper.simps) simp

lemma dec_digits_small: "n < 10 \<Longrightarrow> dec_digits n = [hex_char n]"
  by (simp add: dec_digits.simps)

lemma dec_digits_big: "\<not> n < 10 \<Longrightarrow> dec_digits n = dec_digits (n div 10) @ [hex_char (n mod 10)]"
  by (subst dec_digits.simps) simp

lemma replicate_numeral: "replicate (numeral k) x = x # replicate (pred_numeral k) x"
  by (simp add: numeral_eq_Suc)

lemmas codec_eval =
  parse_record_def py_int16_def strip_sign_def strip_prefix16_def digits16_def
  py_isspace_def hex_value_def format_record_def fmt_04X_def zfill_def str_int_def
  hex_upper_small hex_upper_big dec_digits_small dec_digits_big hex_char_def
  replicate_numeral

subsection \<open>Formatting and parsing a record\<close>

lemma lt16_cases: "(d::nat) < 16 \<Longrightarrow> d = 0 \<or> d = 1 \<or> d = 2 \<or> d = 3 \<or> d = 4 \<or> d = 5 \<or> d = 6 \<or> d = 7 \<or>
   d = 8 \<or> d = 9 \<or> d = 10 \<or> d = 11 \<or> d = 12 \<or> d = 13 \<or> d = 14 \<or> d = 15"
  by arith

lemma hex_ok_all:
  "hex_ok 0" "hex_ok 1" "hex_ok 2" "hex_ok 3" "hex_ok 4" "hex_ok 5" "hex_ok 6" "hex_ok 7"
  "hex_ok 8" "hex_ok 9" "hex_ok 10" "hex_ok 11" "hex_ok 12" "hex_ok 13" "hex_ok 14" "hex_ok 15"
  by (simp_all add: hex_ok_def hex_char_def hex_value_def py_isspace_def)

lemma hex_ok: "d < 16 \<Longrightarrow> hex_ok d"
  using lt16_cases [of d] hex_ok_all by blast









subsection \<open>Exceptions and loops\<close>

lemma ebind_Inl [simp]: "ebind (Inl e) f = Inl e"
  by (simp add: ebind_def)

lemma ebind_Inr [simp]: "ebind (Inr x) f = f x"
  by (simp add: ebind_def)

lemma ebind_eq_Inr: "ebind m f = Inr y \<longleftrightarrow> (\<exists>x. m = Inr x \<and> f x = Inr y)"
  by (cases m) auto

lemma ebind_eq_Inl: "ebind m f = Inl e \<longleftrightarrow> m = Inl e \<or> (\<exists>x. m = Inr x \<and> f x = Inl e)"
  by (cases m) auto

lemma collect_append:
  "collect f (xs @ ys) = ebind (collect f xs) (\<lambda>a. ebind (collect f ys) (\<lambda>b. Inr (a @ b)))"
proof (induction xs)
  case Nil
  show ?case by (cases "collect f ys") simp_all
next
  case (Cons x xs)
  show ?case
    by (cases "f x"; cases "collect f xs"; cases "collect f ys") (simp_all add: Cons)
qed

lemma collect_Inr:
  "collect f xs = Inr zs \<longleftrightarrow> (\<exists>yss. list_all2 (\<lambda>x ys. f x = Inr ys) xs yss \<and> zs = concat yss)"
proof (induction xs arbitrary: zs)
  case Nil
  show ?case by auto
next
  case (Cons x xs)
  show ?case
  proof
    assume "collect f (x # xs) = Inr zs"
    then obtain ys ws where a: "f x = Inr ys" "collect f xs = Inr ws" "zs = ys @ ws"
      by (auto simp: ebind_eq_Inr)
    then obtain yss where "list_all2 (\<lambda>x ys. f x = Inr ys) xs yss" "ws = concat yss"
      using Cons.IH by blast
    with a have "list_all2 (\<lambda>x ys. f x = Inr ys) (x # xs) (ys # yss) \<and> zs = concat (ys # yss)"
      by simp
    then show "\<exists>yss. list_all2 (\<lambda>x ys. f x = Inr ys) (x # xs) yss \<and> zs = concat yss"
      by blast
  next
    assume "\<exists>yss. list_all2 (\<lambda>x ys. f x = Inr ys) (x # xs) yss \<and> zs = concat yss"
    then obtain yss where a: "list_all2 (\<lambda>x ys. f x = Inr ys) (x # xs) yss" "zs = concat yss"
      by blast
    then obtain ys yss' where b: "yss = ys # yss'" "f x = Inr ys"
      "list_all2 (\<lambda>x ys. f x = Inr ys) xs yss'"
      by (auto simp: list_all2_Cons1)
    then have "collect f xs = Inr (concat yss')" using Cons.IH by blast
    with a b show "collect f (x # xs) = Inr zs" by simp
  qed
qed

lemma collect_Inl:
  "collect f xs = Inl e \<longleftrightarrow> (\<exists>i < length xs. f (xs ! i) = Inl e \<and> (\<forall>j < i. \<exists>ys. f (xs ! j) = Inr ys))"
proof (induction xs)
  case Nil
  show ?case by simp
next
  case (Cons x xs)
  show ?case
  proof (cases "f x")
    case (Inl e')
    show ?thesis
    proof
      assume "collect f (x # xs) = Inl e"
      with Inl have "e' = e" by simp
      with Inl show "\<exists>i<length (x # xs). f ((x # xs) ! i) = Inl e \<and> (\<forall>j<i. \<exists>ys. f ((x # xs) ! j) = Inr ys)"
        by (intro exI [of _ 0]) simp
    next
      assume "\<exists>i<length (x # xs). f ((x # xs) ! i) = Inl e \<and> (\<forall>j<i. \<exists>ys. f ((x # xs) ! j) = Inr ys)"
      then obtain i where i: "i < length (x # xs)" "f ((x # xs) ! i) = Inl e"
        "\<forall>j<i. \<exists>ys. f ((x # xs) ! j) = Inr ys" by blast
      have "i = 0"
      proof (rule ccontr)
        assume "i \<noteq> 0"
        then have "0 < i" by simp
        with i(3) have "\<exists>ys. f ((x # xs) ! 0) = Inr ys" by blast
        with Inl show False by simp
      qed
      with i Inl show "collect f (x # xs) = Inl e" by simp
    qed
  next
    case (Inr ys)
    have "collect f (x # xs) = Inl e \<longleftrightarrow> collect f xs = Inl e"
      using Inr by (cases "collect f xs") simp_all
    also have "\<dots> \<longleftrightarrow> (\<exists>i<length xs. f (xs ! i) = Inl e \<and> (\<forall>j<i. \<exists>ys. f (xs ! j) = Inr ys))"
      by (rule Cons.IH)
    also have "\<dots> \<longleftrightarrow> (\<exists>i<length (x # xs). f ((x # xs) ! i) = Inl e \<and> (\<forall>j<i. \<exists>ys. f ((x # xs) ! j) = Inr ys))"
    proof
      assume "\<exists>i<length xs. f (xs ! i) = Inl e \<and> (\<forall>j<i. \<exists>ys. f (xs ! j) = Inr ys)"
      then obtain i where i: "i < length xs" "f (xs ! i) = Inl e" "\<forall>j<i. \<exists>ys. f (xs ! j) = Inr ys"
        by blast
      have "\<forall>j<Suc i. \<exists>ys. f ((x # xs) ! j) = Inr ys"
      proof (intro allI impI)
        fix j assume "j < Suc i"
        then show "\<exists>ys. f ((x # xs) ! j) = Inr ys"
          using Inr i(3) by (cases j) auto
      qed
      with i show "\<exists>i<length (x # xs). f ((x # xs) ! i) = Inl e \<and> (\<forall>j<i. \<exists>ys. f ((x # xs) ! j) = Inr ys)"
        by (intro exI [of _ "Suc i"]) simp
    next
      assume "\<exists>i<length (x # xs). f ((x # xs) ! i) = Inl e \<and> (\<forall>j<i. \<exists>ys. f ((x # xs) ! j) = Inr ys)"
      then obtain i where i: "i < length (x # xs)" "f ((x # xs) ! i) = Inl e"
        "\<forall>j<i. \<exists>ys. f ((x # xs) ! j) = Inr ys" by blast
      from i(2) Inr obtain k where k: "i = Suc k" by (cases i) auto
      have "\<forall>j<k. \<exists>ys. f (xs ! j) = Inr ys"
      proof (intro allI impI)
        fix j assume "j < k"
        then have "Suc j < i" using k by simp
        with i(3) have "\<exists>ys. f ((x # xs) ! Suc j) = Inr ys" by blast
        then show "\<exists>ys. f (xs ! j) = Inr ys" by simp
      qed
      with i k show "\<exists>i<length xs. f (xs ! i) = Inl e \<and> (\<forall>j<i. \<exists>ys. f (xs ! j) = Inr ys)"
        by (intro exI [of _ k]) simp
    qed
    finally show ?thesis .
  qed
qed

lemma collect_total:
  "(\<forall>x \<in> set xs. \<exists>ys. f x = Inr ys) \<Longrightarrow> \<exists>zs. collect f xs = Inr zs"
proof (induction xs)
  case Nil
  show ?case by simp
next
  case (Cons x xs)
  then obtain ys zs where "f x = Inr ys" "collect f xs = Inr zs" by auto
  then show ?case by simp
qed

lemma collect_cong:
  "(\<And>x. x \<in> set xs \<Longrightarrow> f x = g x) \<Longrightarrow> collect f xs = collect g xs"
  by (induction xs) simp_all

lemma collect_map: "collect f (map g xs) = collect (\<lambda>x. f (g x)) xs"
  by (induction xs) simp_all

lemma collect_singletons:
  "(\<And>x. x \<in> set xs \<Longrightarrow> f x = Inr [g x]) \<Longrightarrow> collect f xs = Inr (map g xs)"
  by (induction xs) simp_all

lemma mapM_Nil [simp]: "mapM f [] = Inr []"
  by (simp add: mapM_def)

lemma mapM_Cons [simp]:
  "mapM f (x # xs) = ebind (f x) (\<lambda>y. ebind (mapM f xs) (\<lambda>ys. Inr (y # ys)))"
  by (cases "f x") (simp_all add: mapM_def)

lemma mapM_append:
  "mapM f (xs @ ys) = ebind (mapM f xs) (\<lambda>a. ebind (mapM f ys) (\<lambda>b. Inr (a @ b)))"
proof (induction xs)
  case Nil
  show ?case by (cases "mapM f ys") simp_all
next
  case (Cons x xs)
  show ?case
    by (cases "f x"; cases "mapM f xs"; cases "mapM f ys") (simp_all add: Cons)
qed

lemma mapM_Inr: "mapM f xs = Inr ys \<longleftrightarrow> list_all2 (\<lambda>x y. f x = Inr y) xs ys"
proof (induction xs arbitrary: ys)
  case Nil
  show ?case by auto
next
  case (Cons x xs)
  show ?case
    by (auto simp: ebind_eq_Inr Cons list_all2_Cons1)
qed

lemma mapM_all:
  "(\<And>x. x \<in> set xs \<Longrightarrow> f x = Inr (g x)) \<Longrightarrow> mapM f xs = Inr (map g xs)"
  by (induction xs) simp_all

lemma mapM_Inl:
  "mapM f xs = Inl e \<Longrightarrow> \<exists>x \<in> set xs. f x = Inl e"
proof (induction xs)
  case Nil
  then show ?case by simp
next
  case (Cons x xs)
  then show ?case
    by (cases "f x"; cases "mapM f xs") auto
qed

subsection \<open>Sets and dictionaries\<close>

lemma set_set_add [simp]: "set (set_add x xs) = insert x (set xs)"
  by (auto simp: set_add_def)

lemma distinct_set_add [simp]: "distinct (set_add x xs) = distinct xs"
  by (auto simp: set_add_def)

lemma set_add_input: "set (add_input i xs) = (if i = 65535 then set xs else insert i (set xs))"
  by (simp add: add_input_def)

lemma distinct_add_input [simp]: "distinct (add_input i xs) = distinct xs"
  by (simp add: add_input_def)

lemma update_fresh: "k \<notin> fst ` set al \<Longrightarrow> AList.update k v al = al @ [(k, v)]"
  by (induction al) auto

lemma set_update_subset: "set (AList.update k v al) \<subseteq> insert (k, v) (set al)"
  by (induction al) auto

lemma index_fold_notin:
  "s \<notin> set xs \<Longrightarrow>
   map_of (fold (\<lambda>(i, s) d. AList.update s (int i) d) (List.enumerate n xs) d) s = map_of d s"
  by (induction xs arbitrary: n d) (auto simp: update_conv')

lemma index_fold_in:
  "s \<in> set xs \<Longrightarrow>
   \<exists>i < length xs. xs ! i = s \<and>
      map_of (fold (\<lambda>(i, s) d. AList.update s (int i) d) (List.enumerate n xs) d) s =
      Some (int (n + i))"
proof (induction xs arbitrary: n d)
  case Nil
  then show ?case by simp
next
  case (Cons x xs)
  show ?case
  proof (cases "s \<in> set xs")
    case True
    from Cons.IH [OF True, of "Suc n" "AList.update x (int n) d"]
    obtain i where "i < length xs" "xs ! i = s"
      "map_of (fold (\<lambda>(i, s) d. AList.update s (int i) d) (List.enumerate (Suc n) xs)
         (AList.update x (int n) d)) s = Some (int (Suc n + i))"
      by blast
    then show ?thesis
      by (intro exI [of _ "Suc i"]) simp
  next
    case False
    with Cons.prems have sx: "s = x" by simp
    have "map_of (fold (\<lambda>(i, s) d. AList.update s (int i) d) (List.enumerate (Suc n) xs)
             (AList.update x (int n) d)) x = map_of (AList.update x (int n) d) x"
      using False sx by (intro index_fold_notin) simp
    then show ?thesis using sx by (intro exI [of _ 0]) (simp add: update_conv')
  qed
qed

lemma index_dict_None: "map_of (index_dict xs) s = None \<longleftrightarrow> s \<notin> set xs"
  using index_fold_in [of s xs 0 "[]"] index_fold_notin [of s xs 0 "[]"]
  by (auto simp: index_dict_def)

lemma index_dict_Some:
  "map_of (index_dict xs) s = Some v \<Longrightarrow> \<exists>i < length xs. xs ! i = s \<and> v = int i"
  using index_fold_in [of s xs 0 "[]"] index_dict_None [of xs s]
  by (cases "s \<in> set xs") (auto simp: index_dict_def)

lemma index_dict_distinct:
  assumes "distinct xs" "i < length xs"
  shows "map_of (index_dict xs) (xs ! i) = Some (int i)"
proof -
  have "xs ! i \<in> set xs" using assms by simp
  then obtain v where v: "map_of (index_dict xs) (xs ! i) = Some v"
    using index_dict_None [of xs "xs ! i"] by auto
  then obtain j where "j < length xs" "xs ! j = xs ! i" "v = int j"
    using index_dict_Some by blast
  then have "j = i" using assms by (simp add: nth_eq_iff_index_eq)
  then show ?thesis using v \<open>v = int j\<close> by simp
qed

lemma getitem_s_index_dict:
  "getitem_s (index_dict xs) s = Inr v \<longleftrightarrow> map_of (index_dict xs) s = Some v"
  by (simp add: getitem_s_def split: option.splits)

lemma getitem_s_Inl:
  "getitem_s d s = Inl e \<longleftrightarrow> map_of d s = None \<and> e = KeyError (KeySym s)"
  by (auto simp: getitem_s_def split: option.splits)

lemma getitem_s_Inr: "getitem_s d s = Inr v \<longleftrightarrow> map_of d s = Some v"
  by (simp add: getitem_s_def split: option.splits)

lemma getitem_i_Inr: "getitem_i d s = Inr v \<longleftrightarrow> map_of d s = Some v"
  by (simp add: getitem_i_def split: option.splits)

lemma index_dict_list:
  assumes "distinct xs"
  shows "index_dict xs = map (\<lambda>(i, s). (s, int i)) (List.enumerate 0 xs)"
proof -
  have "distinct xs \<Longrightarrow> set xs \<inter> fst ` set d = {} \<Longrightarrow>
        fold (\<lambda>(i, s) d. AList.update s (int i) d) (List.enumerate n xs) d =
        d @ map (\<lambda>(i, s). (s, int i)) (List.enumerate n xs)" for n d
  proof (induction xs arbitrary: n d)
    case Nil
    then show ?case by simp
  next
    case (Cons x xs)
    have "x \<notin> fst ` set d" using Cons.prems by auto
    then have u: "AList.update x (int n) d = d @ [(x, int n)]" by (rule update_fresh)
    have "set xs \<inter> fst ` set (d @ [(x, int n)]) = {}" using Cons.prems by auto
    with Cons.IH [of "d @ [(x, int n)]" "Suc n"] Cons.prems u show ?case by simp
  qed
  from this [of "[]" 0] assms show ?thesis
    by (simp add: index_dict_def)
qed

lemma reverse_dict_list:
  assumes "distinct (map snd d)"
  shows "reverse_dict d = map (\<lambda>(s, i). (i, s)) d"
proof -
  have "distinct (map snd d) \<Longrightarrow> snd ` set d \<inter> fst ` set r = {} \<Longrightarrow>
        fold (\<lambda>(s, i) r. AList.update i s r) d r = r @ map (\<lambda>(s, i). (i, s)) d" for r
  proof (induction d arbitrary: r)
    case Nil
    then show ?case by simp
  next
    case (Cons p d)
    obtain s i where p: "p = (s, i)" by (cases p)
    have "i \<notin> fst ` set r" using Cons.prems p by auto
    then have u: "AList.update i s r = r @ [(i, s)]" by (rule update_fresh)
    have "snd ` set d \<inter> fst ` set (r @ [(i, s)]) = {}" using Cons.prems p by force
    with Cons.IH [of "r @ [(i, s)]"] Cons.prems u p show ?case by simp
  qed
  from this [of "[]"] assms show ?thesis
    by (simp add: reverse_dict_def)
qed

lemma enumerate_pairs:
  "map (\<lambda>(i, s). (s, int i)) (List.enumerate n xs) = zip xs (map int [n..<n + length xs])"
  by (induction xs arbitrary: n) (simp_all add: upt_conv_Cons del: upt_Suc)

lemma swap_zip: "map (\<lambda>(s, i). (i, s)) (zip xs ys) = zip ys xs"
  by (induction xs ys rule: list_induct2') auto

lemma reverse_index_dict:
  assumes "distinct xs"
  shows "reverse_dict (index_dict xs) = zip (map int [0..<length xs]) xs"
proof -
  have d: "index_dict xs = zip xs (map int [0..<length xs])"
    using index_dict_list [OF assms] enumerate_pairs [of 0 xs] by simp
  have "distinct (map snd (zip xs (map int [0..<length xs])))"
    by (simp add: distinct_map inj_on_def)
  then have "reverse_dict (index_dict xs) = map (\<lambda>(s, i). (i, s)) (zip xs (map int [0..<length xs]))"
    unfolding d by (rule reverse_dict_list)
  also have "\<dots> = zip (map int [0..<length xs]) xs"
    by (rule swap_zip)
  finally show ?thesis .
qed

lemma map_of_reverse_index_dict:
  assumes "distinct xs"
  shows "map_of (reverse_dict (index_dict xs)) i =
         (if 0 \<le> i \<and> i < int (length xs) then Some (xs ! nat i) else None)"
proof (cases "0 \<le> i \<and> i < int (length xs)")
  case True
  then have n: "nat i < length xs" and ii: "int (nat i) = i" by auto
  have k: "map int [0..<length xs] ! nat i = i" using n ii by simp
  have "map_of (zip (map int [0..<length xs]) xs) (map int [0..<length xs] ! nat i) = Some (xs ! nat i)"
    using n by (intro map_of_zip_nth) (simp_all add: distinct_map inj_on_def)
  then have "map_of (zip (map int [0..<length xs]) xs) i = Some (xs ! nat i)"
    unfolding k .
  then show ?thesis using True by (simp add: reverse_index_dict [OF assms])
next
  case False
  then have "i \<notin> set (map int [0..<length xs])" by auto
  then have "map_of (zip (map int [0..<length xs]) xs) i = None"
    by (simp add: map_of_zip_is_None)
  then show ?thesis using False by (auto simp add: reverse_index_dict [OF assms])
qed


subsection \<open>The encoder\<close>

lemma collect_singletons_rel:
  assumes "list_all2 (\<lambda>x ys. f x = Inr ys) xs yss"
    and "\<And>x ys. x \<in> set xs \<Longrightarrow> f x = Inr ys \<Longrightarrow> \<exists>r. ys = [r] \<and> Q x r"
  shows "list_all2 Q xs (concat yss)"
  using assms
proof (induction xs yss rule: list_all2_induct)
  case Nil
  show ?case by simp
next
  case (Cons x xs y ys)
  from Cons.prems [of x y] Cons.hyps(1) obtain r where r: "y = [r]" "Q x r" by auto
  have "list_all2 Q xs (concat ys)"
    using Cons.IH Cons.prems by auto
  with r show ?case by simp
qed

lemma state_decl_recs_total:
  "\<exists>decls. state_decl_recs fsm (index_dict (states fsm)) output_idx = Inr decls"
proof -
  have g: "\<exists>sid. getitem_s (index_dict (states fsm)) s = Inr sid" if "s \<in> set (states fsm)" for s
    using that index_dict_None [of "states fsm" s] by (auto simp: getitem_s_def split: option.splits)
  show ?thesis
  proof (cases "fsm_type fsm = ''moore''")
    case True
    have "\<exists>zs. collect (\<lambda>state.
          ebind (getitem_s (index_dict (states fsm)) state) (\<lambda>sid.
            let flags = state_flags fsm state;
                out = (case map_of (state_outputs fsm) state of
                         None \<Rightarrow> 0
                       | Some state_out \<Rightarrow>
                           (case map_of output_idx state_out of None \<Rightarrow> 0 | Some n \<Rightarrow> n + 1))
            in Inr [(TYPE_STATE_DECL, sid, flags, out, 0)])) (states fsm) = Inr zs"
    proof (rule collect_total, rule ballI)
      fix s assume "s \<in> set (states fsm)"
      then obtain sid where "getitem_s (index_dict (states fsm)) s = Inr sid" using g by blast
      then show "\<exists>ys. ebind (getitem_s (index_dict (states fsm)) s) (\<lambda>sid.
            let flags = state_flags fsm s;
                out = (case map_of (state_outputs fsm) s of
                         None \<Rightarrow> 0
                       | Some state_out \<Rightarrow>
                           (case map_of output_idx state_out of None \<Rightarrow> 0 | Some n \<Rightarrow> n + 1))
            in Inr [(TYPE_STATE_DECL, sid, flags, out, 0)]) = Inr ys"
        by (simp add: Let_def)
    qed
    then show ?thesis using True by (simp add: state_decl_recs_def)
  next
    case False
    have "\<exists>zs. collect (\<lambda>state.
          let flags = state_flags fsm state in
          if flags \<noteq> 0
          then ebind (getitem_s (index_dict (states fsm)) state)
                 (\<lambda>sid. Inr [(TYPE_STATE_DECL, sid, flags, 0, 0)])
          else Inr []) (states fsm) = Inr zs"
    proof (rule collect_total, rule ballI)
      fix s assume "s \<in> set (states fsm)"
      then obtain sid where "getitem_s (index_dict (states fsm)) s = Inr sid" using g by blast
      then show "\<exists>ys. (let flags = state_flags fsm s in
          if flags \<noteq> 0
          then ebind (getitem_s (index_dict (states fsm)) s)
                 (\<lambda>sid. Inr [(TYPE_STATE_DECL, sid, flags, 0, 0)])
          else Inr []) = Inr ys"
        by (simp add: Let_def)
    qed
    then show ?thesis using False by (simp add: state_decl_recs_def)
  qed
qed

lemma state_flags_transitions [simp]:
  "state_flags (fsm \<lparr> transitions := ts \<rparr>) s = state_flags fsm s"
  by (simp add: state_flags_def)

lemma state_decl_recs_transitions [simp]:
  "state_decl_recs (fsm \<lparr> transitions := ts \<rparr>) sidx oidx = state_decl_recs fsm sidx oidx"
  by (simp add: state_decl_recs_def)

lemma transition_recs_transitions [simp]:
  "transition_recs (fsm \<lparr> transitions := ts \<rparr>) = transition_recs fsm"
  by (intro ext) (simp add: transition_recs_def)

lemma transition_recs_mealy:
  "fsm_type fsm = ''mealy'' \<Longrightarrow>
   transition_recs fsm sidx iidx oidx t =
     ebind (getitem_s sidx (t_from t)) (\<lambda>src.
     ebind (input_id iidx (t_input t)) (\<lambda>inp.
       (case targets_of (t_to t) of
          [] \<Rightarrow> Inl IndexError
        | first # _ \<Rightarrow>
            ebind (getitem_s sidx first) (\<lambda>tgt.
              Inr [(TYPE_MEALY_TRANSITION, src, inp, tgt, output_id oidx (t_output t))]))))"
  by (simp add: transition_recs_def)

lemma transition_recs_keep_first:
  "fsm_type fsm = ''mealy'' \<Longrightarrow>
   transition_recs fsm sidx iidx oidx (keep_first t) = transition_recs fsm sidx iidx oidx t"
  by (cases "targets_of (t_to t)") (simp_all add: transition_recs_mealy keep_first_def)

lemma input_id_total:
  "(case i of None \<Rightarrow> True | Some s \<Rightarrow> is_epsilon s \<or> s \<in> set alph) \<Longrightarrow>
   \<exists>inp. input_id (index_dict alph) i = Inr inp"
  using index_dict_None [of alph]
  by (auto simp: input_id_def getitem_s_def split: option.splits)

lemma fsm_to_hex_Inr:
  "fsm_to_hex fsm = Inr (records, sn, inn, outn) \<longleftrightarrow>
   (\<exists>decls trans.
      state_decl_recs fsm (index_dict (states fsm)) (index_dict (output_alphabet fsm)) = Inr decls \<and>
      collect (transition_recs fsm (index_dict (states fsm)) (index_dict (alphabet fsm))
                 (index_dict (output_alphabet fsm))) (transitions fsm) = Inr trans \<and>
      records = map format_rec5 decls @ map format_rec5 trans \<and>
      sn = reverse_dict (index_dict (states fsm)) \<and>
      inn = reverse_dict (index_dict (alphabet fsm)) \<and>
      outn = reverse_dict (index_dict (output_alphabet fsm)))"
  by (auto simp: fsm_to_hex_def fsm_to_recs_def Let_def ebind_eq_Inr)

lemmas model_eval =
  fsm_to_hex_def fsm_to_recs_def Let_def index_dict_def reverse_dict_def state_decl_recs_def
  state_flags_def getitem_s_def transition_recs_def input_id_def is_epsilon_def ustr_def
  output_id_def get_default_def format_rec5_def nfa_recs_def


subsection \<open>The decoding loop\<close>

lemma decode_recs_Nil [simp]: "decode_recs st [] = st"
  by (simp add: decode_recs_def)

lemma decode_recs_Cons [simp]: "decode_recs st (r # rs) = decode_recs (decode_step st r) rs"
  by (simp add: decode_recs_def)

lemma decode_recs_append [simp]: "decode_recs st (rs @ rs') = decode_recs (decode_recs st rs) rs'"
  by (simp add: decode_recs_def)

lemma decode_loop_Inr:
  "decode_loop st records = Inr st' \<longleftrightarrow>
   (\<exists>recs. mapM parse_record records = Inr recs \<and> st' = decode_recs st recs)"
proof (induction records arbitrary: st)
  case Nil
  show ?case by auto
next
  case (Cons r rs)
  show ?case
    by (cases "parse_record r") (auto simp: Cons ebind_eq_Inr)
qed

lemma parse_record_Inl: "parse_record r = Inl e \<Longrightarrow> e = ValueError"
  by (auto simp: parse_record_def Let_def split: if_splits option.splits)

lemma decode_loop_Inl: "decode_loop st records = Inl e \<Longrightarrow> e = ValueError"
proof (induction records arbitrary: st)
  case Nil
  then show ?case by simp
next
  case (Cons r rs)
  then show ?case
    by (cases "parse_record r") (auto dest: parse_record_Inl)
qed

lemma decode_loop_parsed:
  "mapM parse_record records = Inr recs \<Longrightarrow> decode_loop st records = Inr (decode_recs st recs)"
  using decode_loop_Inr by blast


subsection \<open>The invariant of the loop\<close>

lemma it_ok_mono:
  assumes "it_ok st t"
    and "set (state_ids st) \<subseteq> set (state_ids st')"
    and "set (input_ids st) \<subseteq> set (input_ids st')"
    and "set (output_ids st) \<subseteq> set (output_ids st')"
  shows "it_ok st' t"
  using assms unfolding it_ok_def by blast

lemma set_add_input_mono: "set xs \<subseteq> set (add_input i xs)"
  by (auto simp: add_input_def)

lemma input_of_in: "input_of i = Some j \<Longrightarrow> j \<in> set (add_input i xs)"
  by (auto simp: input_of_def add_input_def split: if_splits)

lemma dstate_ok_init: "dstate_ok init_dstate"
  by (simp add: dstate_ok_def init_dstate_def)

lemma dstate_ok_state_decl:
  assumes "dstate_ok st"
  shows "dstate_ok (step_state_decl st sid flags out)"
proof -
  let ?st' = "step_state_decl st sid flags out"
  have s: "set (state_ids ?st') = insert sid (set (state_ids st))"
    by (simp add: step_state_decl_def Let_def)
  have i: "input_ids ?st' = input_ids st"
    by (simp add: step_state_decl_def Let_def)
  have o: "set (output_ids st) \<subseteq> set (output_ids ?st')"
    by (auto simp: step_state_decl_def Let_def)
  have t: "transitions_d ?st' = transitions_d st" "nfa_pending ?st' = nfa_pending st"
    by (simp_all add: step_state_decl_def Let_def)
  have mono: "it_ok ?st' x" if "it_ok st x" for x
    using that s i o by (intro it_ok_mono [of st x ?st']) auto
  have 1: "\<forall>j. initial_state ?st' = Some j \<longrightarrow> j \<in> set (state_ids ?st')"
    using assms unfolding s by (auto simp: step_state_decl_def Let_def dstate_ok_def)
  have 2: "set (accepting_states ?st') \<subseteq> set (state_ids ?st')"
    using assms unfolding s by (auto simp: step_state_decl_def Let_def dstate_ok_def)
  have 3: "\<forall>x \<in> set (transitions_d ?st'). it_ok ?st' x"
    using assms mono unfolding t by (auto simp: dstate_ok_def)
  have 4: "\<forall>p. nfa_pending ?st' = Some p \<longrightarrow> it_ok ?st' (flush_pending p)"
    using assms mono unfolding t by (auto simp: dstate_ok_def)
  have 5: "\<forall>kv \<in> set (state_outputs_d ?st'). fst kv \<in> set (state_ids ?st') \<and> snd kv \<in> set (output_ids ?st')"
  proof (cases "out = 0")
    case True
    then have "state_outputs_d ?st' = state_outputs_d st" "output_ids ?st' = output_ids st"
      by (simp_all add: step_state_decl_def Let_def)
    then show ?thesis using assms s by (auto simp: dstate_ok_def)
  next
    case False
    then have e: "state_outputs_d ?st' = AList.update sid (out - 1) (state_outputs_d st)"
      "set (output_ids ?st') = insert (out - 1) (set (output_ids st))"
      by (simp_all add: step_state_decl_def Let_def)
    have "set (AList.update sid (out - 1) (state_outputs_d st)) \<subseteq>
          insert (sid, out - 1) (set (state_outputs_d st))"
      by (rule set_update_subset)
    then show ?thesis using assms unfolding e s by (auto simp: dstate_ok_def)
  qed
  have 6: "distinct (state_ids ?st')" "distinct (input_ids ?st')" "distinct (output_ids ?st')"
    "distinct (accepting_states ?st')"
    using assms by (auto simp: step_state_decl_def Let_def dstate_ok_def)
  show ?thesis
    unfolding dstate_ok_def using 1 2 3 4 5 6 by blast
qed

lemma dstate_ok_dfa:
  assumes "dstate_ok st"
  shows "dstate_ok (step_dfa st src inp tgt)"
proof -
  let ?st' = "step_dfa st src inp tgt"
  have s: "set (state_ids ?st') = insert tgt (insert src (set (state_ids st)))"
    by (simp add: step_dfa_def)
  have i: "input_ids ?st' = add_input inp (input_ids st)"
    by (simp add: step_dfa_def)
  have o: "output_ids ?st' = output_ids st"
    by (simp add: step_dfa_def)
  have r: "initial_state ?st' = initial_state st" "accepting_states ?st' = accepting_states st"
    "nfa_pending ?st' = nfa_pending st" "state_outputs_d ?st' = state_outputs_d st"
    "transitions_d ?st' = transitions_d st @
       [\<lparr> it_from = src, it_input = input_of inp, it_to = ISingle tgt, it_output = None \<rparr>]"
    by (simp_all add: step_dfa_def)
  have mono: "it_ok ?st' x" if "it_ok st x" for x
    using that s i o set_add_input_mono [of "input_ids st" inp]
    by (intro it_ok_mono [of st x ?st']) auto
  have new: "it_ok ?st' \<lparr> it_from = src, it_input = input_of inp, it_to = ISingle tgt, it_output = None \<rparr>"
    unfolding it_ok_def s i by (auto intro: input_of_in)
  have 1: "\<forall>j. initial_state ?st' = Some j \<longrightarrow> j \<in> set (state_ids ?st')"
    using assms unfolding s r by (auto simp: dstate_ok_def)
  have 2: "set (accepting_states ?st') \<subseteq> set (state_ids ?st')"
    using assms unfolding s r by (auto simp: dstate_ok_def)
  have 3: "\<forall>x \<in> set (transitions_d ?st'). it_ok ?st' x"
    using assms mono new unfolding r by (auto simp: dstate_ok_def)
  have 4: "\<forall>p. nfa_pending ?st' = Some p \<longrightarrow> it_ok ?st' (flush_pending p)"
    using assms mono unfolding r by (auto simp: dstate_ok_def)
  have 5: "\<forall>kv \<in> set (state_outputs_d ?st'). fst kv \<in> set (state_ids ?st') \<and> snd kv \<in> set (output_ids ?st')"
    using assms unfolding r s o by (auto simp: dstate_ok_def)
  have 6: "distinct (state_ids ?st')" "distinct (input_ids ?st')" "distinct (output_ids ?st')"
    "distinct (accepting_states ?st')"
    using assms by (auto simp: step_dfa_def dstate_ok_def)
  show ?thesis
    unfolding dstate_ok_def using 1 2 3 4 5 6 by blast
qed

lemma dstate_ok_mealy:
  assumes "dstate_ok st"
  shows "dstate_ok (step_mealy st src inp tgt out)"
proof -
  let ?st' = "step_mealy st src inp tgt out"
  have s: "set (state_ids ?st') = insert tgt (insert src (set (state_ids st)))"
    by (simp add: step_mealy_def)
  have i: "input_ids ?st' = add_input inp (input_ids st)"
    by (simp add: step_mealy_def)
  have o: "set (output_ids ?st') = insert out (set (output_ids st))"
    by (simp add: step_mealy_def)
  have r: "initial_state ?st' = initial_state st" "accepting_states ?st' = accepting_states st"
    "nfa_pending ?st' = nfa_pending st" "state_outputs_d ?st' = state_outputs_d st"
    "transitions_d ?st' = transitions_d st @
       [\<lparr> it_from = src, it_input = input_of inp, it_to = ISingle tgt, it_output = Some out \<rparr>]"
    by (simp_all add: step_mealy_def)
  have mono: "it_ok ?st' x" if "it_ok st x" for x
    using that s i o set_add_input_mono [of "input_ids st" inp]
    by (intro it_ok_mono [of st x ?st']) auto
  have new: "it_ok ?st' \<lparr> it_from = src, it_input = input_of inp, it_to = ISingle tgt, it_output = Some out \<rparr>"
    unfolding it_ok_def s i o by (auto intro: input_of_in)
  have 1: "\<forall>j. initial_state ?st' = Some j \<longrightarrow> j \<in> set (state_ids ?st')"
    using assms unfolding s r by (auto simp: dstate_ok_def)
  have 2: "set (accepting_states ?st') \<subseteq> set (state_ids ?st')"
    using assms unfolding s r by (auto simp: dstate_ok_def)
  have 3: "\<forall>x \<in> set (transitions_d ?st'). it_ok ?st' x"
    using assms mono new unfolding r by (auto simp: dstate_ok_def)
  have 4: "\<forall>p. nfa_pending ?st' = Some p \<longrightarrow> it_ok ?st' (flush_pending p)"
    using assms mono unfolding r by (auto simp: dstate_ok_def)
  have 5: "\<forall>kv \<in> set (state_outputs_d ?st'). fst kv \<in> set (state_ids ?st') \<and> snd kv \<in> set (output_ids ?st')"
    using assms unfolding r s o by (auto simp: dstate_ok_def)
  have 6: "distinct (state_ids ?st')" "distinct (input_ids ?st')" "distinct (output_ids ?st')"
    "distinct (accepting_states ?st')"
    using assms by (auto simp: step_mealy_def dstate_ok_def)
  show ?thesis
    unfolding dstate_ok_def using 1 2 3 4 5 6 by blast
qed

lemma step_nfa_fields:
  "state_ids (step_nfa st src inp tgt cont) = set_add tgt (set_add src (state_ids st))"
  "input_ids (step_nfa st src inp tgt cont) = add_input inp (input_ids st)"
  "output_ids (step_nfa st src inp tgt cont) = output_ids st"
  "initial_state (step_nfa st src inp tgt cont) = initial_state st"
  "accepting_states (step_nfa st src inp tgt cont) = accepting_states st"
  "state_outputs_d (step_nfa st src inp tgt cont) = state_outputs_d st"
  "has_mealy (step_nfa st src inp tgt cont) = has_mealy st"
  "has_moore_outputs (step_nfa st src inp tgt cont) = has_moore_outputs st"
  "has_nfa_multi (step_nfa st src inp tgt cont) = True"
  by (simp_all add: step_nfa_def Let_def split: option.splits prod.splits)

lemma step_nfa_transitions:
  "transitions_d (step_nfa st src inp tgt cont) =
     transitions_d st @ nfa_flushed st src inp @
     (if cont = 0 then [flush_pending (nfa_group st src inp tgt)] else [])"
  "nfa_pending (step_nfa st src inp tgt cont) =
     (if cont = 0 then None else Some (nfa_group st src inp tgt))"
  by (simp_all add: step_nfa_def Let_def nfa_group_def nfa_flushed_def
        split: option.splits prod.splits)

lemma dstate_ok_nfa:
  assumes "dstate_ok st"
  shows "dstate_ok (step_nfa st src inp tgt cont)"
proof -
  let ?st' = "step_nfa st src inp tgt cont"
  have s: "set (state_ids ?st') = insert tgt (insert src (set (state_ids st)))"
    by (simp add: step_nfa_fields)
  have i: "input_ids ?st' = add_input inp (input_ids st)"
    by (simp add: step_nfa_fields)
  have o: "output_ids ?st' = output_ids st"
    by (simp add: step_nfa_fields)
  have mono: "it_ok ?st' x" if "it_ok st x" for x
    using that s i o set_add_input_mono [of "input_ids st" inp]
    by (intro it_ok_mono [of st x ?st']) auto
  have fl: "\<forall>x \<in> set (nfa_flushed st src inp). it_ok ?st' x"
    using assms mono by (auto simp: nfa_flushed_def dstate_ok_def split: option.splits if_splits)
  have grp: "it_ok ?st' (flush_pending (nfa_group st src inp tgt))"
  proof (cases "nfa_pending st")
    case None
    then show ?thesis
      unfolding it_ok_def s i by (auto simp: nfa_group_def flush_pending_def intro: input_of_in)
  next
    case (Some p)
    obtain ps pi pts where p: "p = (ps, pi, pts)" by (cases p)
    show ?thesis
    proof (cases "ps \<noteq> src \<or> pi \<noteq> inp")
      case True
      with Some p show ?thesis
        unfolding it_ok_def s i by (auto simp: nfa_group_def flush_pending_def intro: input_of_in)
    next
      case False
      from assms Some p have "it_ok st (flush_pending (ps, pi, pts))"
        by (simp add: dstate_ok_def)
      then have "it_ok ?st' (flush_pending (ps, pi, pts))" by (rule mono)
      with False Some p show ?thesis
        unfolding it_ok_def s by (auto simp: nfa_group_def flush_pending_def)
    qed
  qed
  have 1: "\<forall>j. initial_state ?st' = Some j \<longrightarrow> j \<in> set (state_ids ?st')"
    using assms unfolding s by (auto simp: dstate_ok_def step_nfa_fields)
  have 2: "set (accepting_states ?st') \<subseteq> set (state_ids ?st')"
    using assms unfolding s by (auto simp: dstate_ok_def step_nfa_fields)
  have 3: "\<forall>x \<in> set (transitions_d ?st'). it_ok ?st' x"
    using assms mono fl grp by (auto simp: dstate_ok_def step_nfa_transitions)
  have 4: "\<forall>p. nfa_pending ?st' = Some p \<longrightarrow> it_ok ?st' (flush_pending p)"
    using grp by (auto simp: step_nfa_transitions)
  have 5: "\<forall>kv \<in> set (state_outputs_d ?st'). fst kv \<in> set (state_ids ?st') \<and> snd kv \<in> set (output_ids ?st')"
    using assms unfolding s o by (auto simp: dstate_ok_def step_nfa_fields)
  have 6: "distinct (state_ids ?st')" "distinct (input_ids ?st')" "distinct (output_ids ?st')"
    "distinct (accepting_states ?st')"
    using assms by (auto simp: step_nfa_fields dstate_ok_def)
  show ?thesis
    unfolding dstate_ok_def using 1 2 3 4 5 6 by blast
qed

lemma dstate_ok_step: "dstate_ok st \<Longrightarrow> dstate_ok (decode_step st r)"
  by (cases r) (simp add: decode_step_def dstate_ok_state_decl dstate_ok_dfa dstate_ok_mealy
      dstate_ok_nfa)

lemma dstate_ok_recs: "dstate_ok st \<Longrightarrow> dstate_ok (decode_recs st recs)"
  by (induction recs arbitrary: st) (simp_all add: dstate_ok_step)

lemma final_flush_fields:
  "state_ids (final_flush st) = state_ids st"
  "input_ids (final_flush st) = input_ids st"
  "output_ids (final_flush st) = output_ids st"
  "initial_state (final_flush st) = initial_state st"
  "accepting_states (final_flush st) = accepting_states st"
  "state_outputs_d (final_flush st) = state_outputs_d st"
  "has_mealy (final_flush st) = has_mealy st"
  "has_moore_outputs (final_flush st) = has_moore_outputs st"
  "has_nfa_multi (final_flush st) = has_nfa_multi st"
  "nfa_pending (final_flush st) = nfa_pending st"
  "transitions_d (final_flush st) =
     transitions_d st @ (case nfa_pending st of None \<Rightarrow> [] | Some p \<Rightarrow> [flush_pending p])"
  by (simp_all add: final_flush_def split: option.splits)

lemma dstate_ok_final_flush:
  assumes "dstate_ok st"
  shows "dstate_ok (final_flush st)"
proof (cases "nfa_pending st")
  case None
  then show ?thesis using assms by (simp add: final_flush_def)
next
  case (Some p)
  then have "it_ok st (flush_pending p)" using assms by (simp add: dstate_ok_def)
  then show ?thesis
    using assms Some unfolding dstate_ok_def it_ok_def final_flush_fields by simp
qed


subsection \<open>Naming the decoded ids\<close>

lemma map_of_name_map:
  "map_of (name_map p lbl ids) i = (if i \<in> set ids then Some (symbol_name p lbl i) else None)"
  by (induction ids) (auto simp: name_map_def)

lemma getitem_i_name_map:
  "i \<in> set ids \<Longrightarrow> getitem_i (name_map p lbl ids) i = Inr (symbol_name p lbl i)"
  by (simp add: getitem_i_def map_of_name_map)

lemma name_target_ok:
  "set (itargets tg) \<subseteq> set ids \<Longrightarrow>
   name_target (name_map p lbl ids) tg =
     Inr (case tg of ISingle x \<Rightarrow> Single (symbol_name p lbl x)
                   | IMulti xs \<Rightarrow> Multi (map (symbol_name p lbl) xs))"
proof (cases tg)
  case (ISingle x)
  assume "set (itargets tg) \<subseteq> set ids"
  with ISingle show ?thesis by (simp add: name_target_def getitem_i_name_map)
next
  case (IMulti xs)
  assume "set (itargets tg) \<subseteq> set ids"
  with IMulti have "mapM (getitem_i (name_map p lbl ids)) xs = Inr (map (symbol_name p lbl) xs)"
    by (intro mapM_all) (auto simp: getitem_i_name_map)
  with IMulti show ?thesis by (simp add: name_target_def)
qed

lemma name_transition_ok:
  assumes "it_ok st t"
  shows "name_transition (name_map ''S'' sl (state_ids st)) (name_map ''i'' il (input_ids st))
           (name_map ''o'' ol (output_ids st)) t =
         Inr (name_it (symbol_name ''S'' sl) (symbol_name ''i'' il) (symbol_name ''o'' ol) t)"
proof -
  from assms have a: "it_from t \<in> set (state_ids st)"
    and b: "set (itargets (it_to t)) \<subseteq> set (state_ids st)"
    and c: "\<And>i. it_input t = Some i \<Longrightarrow> i \<in> set (input_ids st)"
    and d: "\<And>v. it_output t = Some v \<Longrightarrow> v \<in> set (output_ids st)"
    by (auto simp: it_ok_def)
  have i: "(case it_input t of None \<Rightarrow> None
            | Some i \<Rightarrow> map_of (name_map ''i'' il (input_ids st)) i) =
           map_option (symbol_name ''i'' il) (it_input t)"
    using c by (cases "it_input t") (simp_all add: map_of_name_map)
  have o: "(case it_output t of None \<Rightarrow> Inr Absent
            | Some out \<Rightarrow> ebind (getitem_i (name_map ''o'' ol (output_ids st)) out)
                             (\<lambda>n. Inr (Value n))) =
           Inr (case it_output t of None \<Rightarrow> Absent | Some v \<Rightarrow> Value (symbol_name ''o'' ol v))"
    using d by (cases "it_output t") (simp_all add: getitem_i_name_map)
  show ?thesis
    unfolding name_transition_def i o
    by (simp add: getitem_i_name_map [OF a] name_target_ok [OF b] name_it_def)
qed

lemma name_outputs_ok:
  "\<forall>kv \<in> set kvs. fst kv \<in> set sids \<and> snd kv \<in> set oids \<Longrightarrow>
   name_outputs (name_map ''S'' sl sids) (name_map ''o'' ol oids) kvs d =
     Inr (fold (\<lambda>(k, v) d. AList.update (symbol_name ''S'' sl k) (symbol_name ''o'' ol v) d) kvs d)"
proof (induction kvs arbitrary: d)
  case Nil
  show ?case by simp
next
  case (Cons kv kvs)
  obtain k v where kv: "kv = (k, v)" by (cases kv)
  with Cons.prems have "k \<in> set sids" "v \<in> set oids" by auto
  then show ?case using Cons kv by (simp add: getitem_i_name_map)
qed

lemma build_fsm_ok:
  assumes "dstate_ok st" and "set_iteration set_order"
  shows "build_fsm set_order lb sl il ol st = Inr (fsm_of_dstate set_order lb sl il ol st)"
proof -
  have t: "mapM (name_transition (name_map ''S'' sl (state_ids st)) (name_map ''i'' il (input_ids st))
             (name_map ''o'' ol (output_ids st))) (transitions_d st) =
           Inr (map (name_it (symbol_name ''S'' sl) (symbol_name ''i'' il) (symbol_name ''o'' ol))
                  (transitions_d st))"
    using assms(1) by (intro mapM_all name_transition_ok) (simp add: dstate_ok_def)
  have "distinct (accepting_states st)" using assms(1) by (simp add: dstate_ok_def)
  then have "set (set_order (accepting_states st)) = set (accepting_states st)"
    using assms(2) by (simp add: set_iteration_def)
  then have "set (set_order (accepting_states st)) \<subseteq> set (state_ids st)"
    using assms(1) by (simp add: dstate_ok_def)
  then have a: "mapM (getitem_i (name_map ''S'' sl (state_ids st))) (set_order (accepting_states st)) =
           Inr (map (symbol_name ''S'' sl) (set_order (accepting_states st)))"
    by (intro mapM_all) (auto simp: getitem_i_name_map)
  have o: "name_outputs (name_map ''S'' sl (state_ids st)) (name_map ''o'' ol (output_ids st))
             (state_outputs_d st) [] =
           Inr (fold (\<lambda>(k, v) d. AList.update (symbol_name ''S'' sl k) (symbol_name ''o'' ol v) d)
                  (state_outputs_d st) [])"
    using assms(1) by (intro name_outputs_ok) (simp add: dstate_ok_def)
  have i: "(case initial_state st of None \<Rightarrow> None
            | Some i \<Rightarrow> map_of (name_map ''S'' sl (state_ids st)) i) =
           map_option (symbol_name ''S'' sl) (initial_state st)"
    using assms(1) by (cases "initial_state st") (simp_all add: map_of_name_map dstate_ok_def)
  have e: "(if output_ids st \<noteq> [] then map (symbol_name ''o'' ol) (sort (output_ids st)) else []) =
           map (symbol_name ''o'' ol) (sort (output_ids st))"
    by simp
  show ?thesis
    unfolding build_fsm_def Let_def t a o i e fsm_of_dstate_def
    by simp
qed

lemma hex_to_fsm_decoded:
  assumes "set_iteration set_order"
    and "label_dict (l_states (get_default lbls no_labels)) [] = Inr sl"
    and "label_dict (l_inputs (get_default lbls no_labels)) [] = Inr il"
    and "label_dict (l_outputs (get_default lbls no_labels)) [] = Inr ol"
    and "mapM parse_record records = Inr recs"
  shows "hex_to_fsm set_order records lbls =
         Inr (fsm_of_dstate set_order (get_default lbls no_labels) sl il ol
                (final_flush (decode_recs init_dstate recs)))"
proof -
  have "dstate_ok (final_flush (decode_recs init_dstate recs))"
    by (intro dstate_ok_final_flush dstate_ok_recs dstate_ok_init)
  then show ?thesis
    using assms by (simp add: hex_to_fsm_def Let_def decode_loop_parsed build_fsm_ok)
qed

lemma hex_to_fsm_Inr:
  assumes "set_iteration set_order" and "hex_to_fsm set_order records lbls = Inr m"
  shows "\<exists>sl il ol recs.
           label_dict (l_states (get_default lbls no_labels)) [] = Inr sl \<and>
           label_dict (l_inputs (get_default lbls no_labels)) [] = Inr il \<and>
           label_dict (l_outputs (get_default lbls no_labels)) [] = Inr ol \<and>
           mapM parse_record records = Inr recs \<and>
           m = fsm_of_dstate set_order (get_default lbls no_labels) sl il ol
                 (final_flush (decode_recs init_dstate recs))"
proof -
  from assms(2) obtain sl il ol st where l:
    "label_dict (l_states (get_default lbls no_labels)) [] = Inr sl"
    "label_dict (l_inputs (get_default lbls no_labels)) [] = Inr il"
    "label_dict (l_outputs (get_default lbls no_labels)) [] = Inr ol"
    "decode_loop init_dstate records = Inr st"
    by (auto simp: hex_to_fsm_def Let_def ebind_eq_Inr)
  then obtain recs where r: "mapM parse_record records = Inr recs"
    using decode_loop_Inr by blast
  from hex_to_fsm_decoded [OF assms(1) l(1,2,3) r] assms(2) l(1,2,3) r show ?thesis
    by auto
qed

lemma key_index_Inl: "key_index k = Inl e \<Longrightarrow> e = ValueError"
  by (auto simp: key_index_def split: label_key.splits option.splits)

lemma label_dict_Inl: "label_dict kvs d = Inl e \<Longrightarrow> e = ValueError"
proof (induction kvs arbitrary: d)
  case Nil
  then show ?case by simp
next
  case (Cons kv kvs)
  obtain k v where "kv = (k, v)" by (cases kv)
  with Cons show ?case
    by (cases "key_index k") (auto dest: key_index_Inl)
qed

lemma label_dict_no_labels [simp]:
  "l_states no_labels = []" "l_inputs no_labels = []" "l_outputs no_labels = []"
  "l_type no_labels = None" "l_name no_labels = None" "l_description no_labels = None"
  by (simp_all add: no_labels_def)


subsection \<open>When decoding succeeds, and what it returns\<close>

lemma mapM_total_iff:
  "(\<exists>ys. mapM f xs = Inr ys) \<longleftrightarrow> (\<forall>x \<in> set xs. \<exists>y. f x = Inr y)"
proof (induction xs)
  case Nil
  show ?case by simp
next
  case (Cons x xs)
  show ?case
  proof (cases "f x")
    case (Inl e)
    then show ?thesis by simp
  next
    case (Inr y)
    show ?thesis
    proof (cases "mapM f xs")
      case (Inl e)
      with Inr Cons show ?thesis by simp
    next
      case r: (Inr ys)
      with Inr Cons show ?thesis by simp
    qed
  qed
qed

lemma records_ok_iff: "records_ok records \<longleftrightarrow> (\<exists>recs. mapM parse_record records = Inr recs)"
  by (simp add: records_ok_def mapM_total_iff)

lemma label_dict_total_iff: "(\<exists>r. label_dict kvs d = Inr r) \<longleftrightarrow> keys_ok kvs"
proof (induction kvs arbitrary: d)
  case Nil
  show ?case by (simp add: keys_ok_def)
next
  case (Cons kv kvs)
  obtain k v where kv: "kv = (k, v)" by (cases kv)
  show ?case
  proof (cases "key_index k")
    case (Inl e)
    with kv show ?thesis by (simp add: keys_ok_def)
  next
    case (Inr i)
    have "keys_ok (kv # kvs) \<longleftrightarrow> keys_ok kvs" using kv Inr by (simp add: keys_ok_def)
    with Cons [of "AList.update i v d"] kv Inr show ?thesis by simp
  qed
qed

lemma labels_ok_iff:
  "labels_ok lbls \<longleftrightarrow>
   (\<exists>sl il ol. label_dict (l_states (get_default lbls no_labels)) [] = Inr sl \<and>
               label_dict (l_inputs (get_default lbls no_labels)) [] = Inr il \<and>
               label_dict (l_outputs (get_default lbls no_labels)) [] = Inr ol)"
proof (cases lbls)
  case None
  then show ?thesis by (simp add: labels_ok_def get_default_def)
next
  case (Some lb)
  have "labels_ok lbls \<longleftrightarrow> keys_ok (l_states lb) \<and> keys_ok (l_inputs lb) \<and> keys_ok (l_outputs lb)"
    using Some by (simp add: labels_ok_def)
  also have "\<dots> \<longleftrightarrow> (\<exists>sl. label_dict (l_states lb) [] = Inr sl) \<and>
                     (\<exists>il. label_dict (l_inputs lb) [] = Inr il) \<and>
                     (\<exists>ol. label_dict (l_outputs lb) [] = Inr ol)"
    by (simp add: label_dict_total_iff)
  finally show ?thesis using Some by (auto simp: get_default_def)
qed

lemma hex_to_fsm_total_iff:
  assumes "set_iteration set_order"
  shows "(\<exists>m. hex_to_fsm set_order records lbls = Inr m) \<longleftrightarrow> records_ok records \<and> labels_ok lbls"
proof
  assume "\<exists>m. hex_to_fsm set_order records lbls = Inr m"
  then obtain m where "hex_to_fsm set_order records lbls = Inr m" by blast
  from hex_to_fsm_Inr [OF assms this] show "records_ok records \<and> labels_ok lbls"
    unfolding records_ok_iff labels_ok_iff by blast
next
  assume "records_ok records \<and> labels_ok lbls"
  then obtain recs sl il ol where
    "mapM parse_record records = Inr recs"
    "label_dict (l_states (get_default lbls no_labels)) [] = Inr sl"
    "label_dict (l_inputs (get_default lbls no_labels)) [] = Inr il"
    "label_dict (l_outputs (get_default lbls no_labels)) [] = Inr ol"
    unfolding records_ok_iff labels_ok_iff by blast
  from hex_to_fsm_decoded [OF assms this(2,3,4,1)]
  show "\<exists>m. hex_to_fsm set_order records lbls = Inr m" by blast
qed

lemma hex_to_fsm_Inl:
  "hex_to_fsm set_order records lbls = Inl e \<Longrightarrow> set_iteration set_order \<Longrightarrow> e = ValueError"
proof -
  assume a: "hex_to_fsm set_order records lbls = Inl e" and s: "set_iteration set_order"
  let ?lb = "get_default lbls no_labels"
  show ?thesis
  proof (cases "label_dict (l_states ?lb) []")
    case (Inl e1)
    with a have "e = e1" by (simp add: hex_to_fsm_def Let_def)
    with Inl show ?thesis by (auto dest: label_dict_Inl)
  next
    case sl: (Inr sl)
    show ?thesis
    proof (cases "label_dict (l_inputs ?lb) []")
      case (Inl e1)
      with a sl have "e = e1" by (simp add: hex_to_fsm_def Let_def)
      with Inl show ?thesis by (auto dest: label_dict_Inl)
    next
      case il: (Inr il)
      show ?thesis
      proof (cases "label_dict (l_outputs ?lb) []")
        case (Inl e1)
        with a sl il have "e = e1" by (simp add: hex_to_fsm_def Let_def)
        with Inl show ?thesis by (auto dest: label_dict_Inl)
      next
        case ol: (Inr ol)
        show ?thesis
        proof (cases "decode_loop init_dstate records")
          case (Inl e1)
          with a sl il ol have "e = e1" by (simp add: hex_to_fsm_def Let_def)
          with Inl show ?thesis by (auto dest: decode_loop_Inl)
        next
          case (Inr st)
          then obtain recs where "mapM parse_record records = Inr recs"
            using decode_loop_Inr by blast
          from hex_to_fsm_decoded [OF s sl il ol this] a show ?thesis by simp
        qed
      qed
    qed
  qed
qed

lemma set_fold_update_names:
  "set (fold (\<lambda>(k, v) d. AList.update (f k) (g v) d) kvs d) \<subseteq>
   set d \<union> (\<lambda>(k, v). (f k, g v)) ` set kvs"
proof (induction kvs arbitrary: d)
  case Nil
  show ?case by simp
next
  case (Cons kv kvs)
  obtain k v where kv: "kv = (k, v)" by (cases kv)
  have "set (fold (\<lambda>(k, v) d. AList.update (f k) (g v) d) kvs (AList.update (f k) (g v) d)) \<subseteq>
        set (AList.update (f k) (g v) d) \<union> (\<lambda>(k, v). (f k, g v)) ` set kvs"
    by (rule Cons.IH)
  also have "\<dots> \<subseteq> insert (f k, g v) (set d) \<union> (\<lambda>(k, v). (f k, g v)) ` set kvs"
    using set_update_subset [of "f k" "g v" d] by blast
  finally show ?case using kv by auto
qed

lemma fsm_of_dstate_fields:
  "fsm_type (fsm_of_dstate so lb sl il ol st) = decoded_type lb st"
  "states (fsm_of_dstate so lb sl il ol st) = map (symbol_name ''S'' sl) (sort (state_ids st))"
  "alphabet (fsm_of_dstate so lb sl il ol st) = map (symbol_name ''i'' il) (sort (input_ids st))"
  "output_alphabet (fsm_of_dstate so lb sl il ol st) = map (symbol_name ''o'' ol) (sort (output_ids st))"
  "initial (fsm_of_dstate so lb sl il ol st) = map_option (symbol_name ''S'' sl) (initial_state st)"
  "accepting (fsm_of_dstate so lb sl il ol st) = map (symbol_name ''S'' sl) (so (accepting_states st))"
  "transitions (fsm_of_dstate so lb sl il ol st) =
     map (name_it (symbol_name ''S'' sl) (symbol_name ''i'' il) (symbol_name ''o'' ol)) (transitions_d st)"
  "state_outputs (fsm_of_dstate so lb sl il ol st) =
     (if decoded_type lb st = ''moore''
      then fold (\<lambda>(k, v) d. AList.update (symbol_name ''S'' sl k) (symbol_name ''o'' ol v) d)
             (state_outputs_d st) []
      else [])"
  by (simp_all add: fsm_of_dstate_def)

lemma name_it_fields:
  "t_from (name_it sn inn on t) = sn (it_from t)"
  "t_input (name_it sn inn on t) = map_option inn (it_input t)"
  "targets_of (t_to (name_it sn inn on t)) = map sn (itargets (it_to t))"
  "t_output (name_it sn inn on t) = (case it_output t of None \<Rightarrow> Absent | Some v \<Rightarrow> Value (on v))"
  by (simp_all add: name_it_def split: itarget.splits)

lemma fsm_of_dstate_wf:
  assumes "dstate_ok st" and "set_iteration so"
  shows "well_formed (fsm_of_dstate so lb sl il ol st)"
proof -
  let ?m = "fsm_of_dstate so lb sl il ol st"
  let ?sn = "symbol_name ''S'' sl" and ?in = "symbol_name ''i'' il" and ?on = "symbol_name ''o'' ol"
  have S: "set (states ?m) = ?sn ` set (state_ids st)"
    and I: "set (alphabet ?m) = ?in ` set (input_ids st)"
    and O: "set (output_alphabet ?m) = ?on ` set (output_ids st)"
    by (simp_all add: fsm_of_dstate_fields)
  have 1: "\<forall>s. initial ?m = Some s \<longrightarrow> s \<in> set (states ?m)"
    using assms(1) unfolding S by (auto simp: fsm_of_dstate_fields dstate_ok_def)
  have "distinct (accepting_states st)" using assms(1) by (simp add: dstate_ok_def)
  then have "set (so (accepting_states st)) = set (accepting_states st)"
    using assms(2) by (simp add: set_iteration_def)
  then have 2: "set (accepting ?m) \<subseteq> set (states ?m)"
    using assms(1) unfolding S by (auto simp: fsm_of_dstate_fields dstate_ok_def)
  have 3: "t_from t \<in> set (states ?m) \<and> set (targets_of (t_to t)) \<subseteq> set (states ?m) \<and>
           (\<forall>x. t_input t = Some x \<longrightarrow> x \<in> set (alphabet ?m)) \<and>
           (\<forall>v. t_output t = Value v \<longrightarrow> v \<in> set (output_alphabet ?m))"
    if "t \<in> set (transitions ?m)" for t
  proof -
    from that obtain u where u: "u \<in> set (transitions_d st)" "t = name_it ?sn ?in ?on u"
      by (auto simp: fsm_of_dstate_fields)
    then have ok: "it_ok st u" using assms(1) by (simp add: dstate_ok_def)
    show ?thesis
      unfolding S I O u(2) name_it_fields using ok
      by (auto simp: it_ok_def split: option.splits)
  qed
  have 4: "fst kv \<in> set (states ?m) \<and> snd kv \<in> set (output_alphabet ?m)"
    if "kv \<in> set (state_outputs ?m)" for kv
  proof -
    from that have "kv \<in> (\<lambda>(k, v). (?sn k, ?on v)) ` set (state_outputs_d st)"
      using set_fold_update_names [of ?sn ?on "state_outputs_d st" "[]"]
      by (auto simp: fsm_of_dstate_fields split: if_splits)
    then show ?thesis
      using assms(1) unfolding S O by (auto simp: dstate_ok_def)
  qed
  show ?thesis
    unfolding well_formed_def using 1 2 3 4 by blast
qed

lemmas decoder_eval =
  hex_to_fsm_def decode_step_def step_state_decl_def step_dfa_def step_mealy_def step_nfa_def
  set_add_def add_input_def input_of_def flush_pending_def final_flush_def init_dstate_def
  build_fsm_def decoded_type_def infer_type_def symbol_name_def name_map_def name_target_def
  name_transition_def getitem_i_def key_index_def no_labels_def get_default_def Let_def ustr_def


subsection \<open>The flags of the type inference\<close>

lemma decode_step_flags:
  "has_mealy (decode_step st (ty, f1, f2, f3, f4)) \<longleftrightarrow> has_mealy st \<or> ty = 1"
  "has_moore_outputs (decode_step st (ty, f1, f2, f3, f4)) \<longleftrightarrow> has_moore_outputs st \<or> (ty = 2 \<and> f3 \<noteq> 0)"
  "has_nfa_multi (decode_step st (ty, f1, f2, f3, f4)) \<longleftrightarrow> has_nfa_multi st \<or> ty = 3"
  by (auto simp: decode_step_def step_state_decl_def step_dfa_def step_mealy_def step_nfa_fields
        Let_def)

lemma decode_recs_flags:
  "has_mealy (decode_recs st recs) \<longleftrightarrow> has_mealy st \<or> saw_mealy recs"
  "has_moore_outputs (decode_recs st recs) \<longleftrightarrow> has_moore_outputs st \<or> saw_state_output recs"
  "has_nfa_multi (decode_recs st recs) \<longleftrightarrow> has_nfa_multi st \<or> saw_nfa_multi recs"
proof (induction recs arbitrary: st)
  case Nil
  {
    case 1 show ?case by (simp add: saw_mealy_def)
  next
    case 2 show ?case by (simp add: saw_state_output_def)
  next
    case 3 show ?case by (simp add: saw_nfa_multi_def)
  }
next
  case (Cons r recs)
  obtain ty f1 f2 f3 f4 where r: "r = (ty, f1, f2, f3, f4)" by (cases r)
  {
    case 1
    show ?case unfolding r decode_recs_Cons Cons.IH(1) decode_step_flags
      by (auto simp: saw_mealy_def)
  next
    case 2
    show ?case unfolding r decode_recs_Cons Cons.IH(2) decode_step_flags
      by (auto simp: saw_state_output_def)
  next
    case 3
    show ?case unfolding r decode_recs_Cons Cons.IH(3) decode_step_flags
      by (auto simp: saw_nfa_multi_def)
  }
qed

lemma init_flags [simp]:
  "has_mealy init_dstate = False" "has_moore_outputs init_dstate = False"
  "has_nfa_multi init_dstate = False" "nfa_pending init_dstate = None"
  "transitions_d init_dstate = []" "state_ids init_dstate = []" "input_ids init_dstate = []"
  "output_ids init_dstate = []" "state_outputs_d init_dstate = []"
  "initial_state init_dstate = None" "accepting_states init_dstate = []"
  by (simp_all add: init_dstate_def)

lemma infer_type_final:
  "infer_type (final_flush (decode_recs init_dstate recs)) =
     (if saw_mealy recs then ''mealy''
      else if saw_state_output recs then ''moore''
      else if saw_nfa_multi recs \<or>
              (\<exists>t \<in> set (transitions_d (final_flush (decode_recs init_dstate recs))). it_input t = None)
      then ''nfa'' else ''dfa'')"
  by (simp add: infer_type_def final_flush_fields(7,8,9) decode_recs_flags)

subsection \<open>Chains of \<open>NFA_MULTI\<close> records\<close>



lemma infer_type_pending [simp]: "infer_type (st \<lparr> nfa_pending := p \<rparr>) = infer_type st"
  by (simp add: infer_type_def)

lemma decoded_type_pending [simp]: "decoded_type lb (st \<lparr> nfa_pending := p \<rparr>) = decoded_type lb st"
  by (simp add: decoded_type_def split: option.splits)

lemma build_fsm_pending [simp]:
  "build_fsm so lb sl il ol (st \<lparr> nfa_pending := p \<rparr>) = build_fsm so lb sl il ol st"
  by (simp add: build_fsm_def Let_def cong: if_cong)



section \<open>Claims\<close>

text \<open>
  C5 (record parse strictness). The claim says that parsing succeeds exactly when the text,
  stripped of spaces and colons, is 20 hexadecimal characters. \<open>parse_record\<close> checks the
  length, but leaves the character set to \<^verbatim>\<open>int(s, 16)\<close>, which also takes a sign, a
  \<^verbatim>\<open>0x\<close> prefix, underscores and white space: the text below has the non-hexadecimal
  character \<^verbatim>\<open>-\<close> among its 20 and parses, to a field that is not a 16-bit unsigned number.
\<close>

theorem parse_record_accepts_sign:
  "parse_record ''-001 0001:0002 0003:0004'' = Inr (- 1, 1, 2, 3, 4)"
  by (simp add: codec_eval)

text \<open>
  C9 (Mealy multi-target truncation). For every model of kind mealy that \<open>fsm_to_hex\<close>
  encodes, the records are the state declarations followed by exactly one
  \<open>MEALY_TRANSITION\<close> record per transition, in order, and the target field of that record
  is the id of the first state of the transition's target list. The other targets are
  never read: the encoder's result, error or not, is that of the model whose transitions
  are cut down to their first target, and encoding succeeds as soon as the source, the
  input and the first target of every transition are defined, whatever the other targets.
\<close>

theorem mealy_multi_target_truncation:
  assumes "fsm_type fsm = ''mealy''"
  shows "(\<forall>records sn inn outn. fsm_to_hex fsm = Inr (records, sn, inn, outn) \<longrightarrow>
            (\<exists>decls trans.
               state_decl_recs fsm (index_dict (states fsm)) (index_dict (output_alphabet fsm))
                 = Inr decls \<and>
               records = map format_rec5 decls @ map format_rec5 trans \<and>
               list_all2 (\<lambda>t r. \<exists>src inp tgt first rest.
                            targets_of (t_to t) = first # rest \<and>
                            map_of (index_dict (states fsm)) (t_from t) = Some src \<and>
                            input_id (index_dict (alphabet fsm)) (t_input t) = Inr inp \<and>
                            map_of (index_dict (states fsm)) first = Some tgt \<and>
                            r = (TYPE_MEALY_TRANSITION, src, inp, tgt,
                                 output_id (index_dict (output_alphabet fsm)) (t_output t)))
                 (transitions fsm) trans)) \<and>
         fsm_to_hex fsm = fsm_to_hex (fsm \<lparr> transitions := map keep_first (transitions fsm) \<rparr>) \<and>
         ((\<forall>t \<in> set (transitions fsm). mealy_resolvable fsm t) \<longrightarrow> (\<exists>r. fsm_to_hex fsm = Inr r))"
proof (intro conjI allI impI)
  fix records sn inn outn
  assume enc: "fsm_to_hex fsm = Inr (records, sn, inn, outn)"
  let ?f = "transition_recs fsm (index_dict (states fsm)) (index_dict (alphabet fsm))
              (index_dict (output_alphabet fsm))"
  let ?Q = "\<lambda>t r. \<exists>src inp tgt first rest.
              targets_of (t_to t) = first # rest \<and>
              map_of (index_dict (states fsm)) (t_from t) = Some src \<and>
              input_id (index_dict (alphabet fsm)) (t_input t) = Inr inp \<and>
              map_of (index_dict (states fsm)) first = Some tgt \<and>
              r = (TYPE_MEALY_TRANSITION, src, inp, tgt,
                   output_id (index_dict (output_alphabet fsm)) (t_output t))"
  from enc obtain decls trans where d:
    "state_decl_recs fsm (index_dict (states fsm)) (index_dict (output_alphabet fsm)) = Inr decls"
    "collect ?f (transitions fsm) = Inr trans"
    "records = map format_rec5 decls @ map format_rec5 trans"
    unfolding fsm_to_hex_Inr by blast
  from d(2) obtain yss where y: "list_all2 (\<lambda>t ys. ?f t = Inr ys) (transitions fsm) yss"
    "trans = concat yss"
    unfolding collect_Inr by blast
  have one: "\<exists>r. ys = [r] \<and> ?Q t r" if "?f t = Inr ys" for t ys
    using that assms
    by (cases "targets_of (t_to t)")
       (auto simp: transition_recs_mealy ebind_eq_Inr getitem_s_Inr)
  have "list_all2 ?Q (transitions fsm) (concat yss)"
    using y(1) one by (rule collect_singletons_rel)
  with d(1,3) y(2)
  show "\<exists>decls trans.
          state_decl_recs fsm (index_dict (states fsm)) (index_dict (output_alphabet fsm))
            = Inr decls \<and>
          records = map format_rec5 decls @ map format_rec5 trans \<and>
          list_all2 ?Q (transitions fsm) trans"
    by blast
next
  have "collect (transition_recs fsm (index_dict (states fsm)) (index_dict (alphabet fsm))
                   (index_dict (output_alphabet fsm))) (map keep_first (transitions fsm)) =
        collect (transition_recs fsm (index_dict (states fsm)) (index_dict (alphabet fsm))
                   (index_dict (output_alphabet fsm))) (transitions fsm)"
    using assms by (simp add: collect_map transition_recs_keep_first)
  then show "fsm_to_hex fsm = fsm_to_hex (fsm \<lparr> transitions := map keep_first (transitions fsm) \<rparr>)"
    by (simp add: fsm_to_hex_def fsm_to_recs_def Let_def)
next
  assume res: "\<forall>t \<in> set (transitions fsm). mealy_resolvable fsm t"
  let ?f = "transition_recs fsm (index_dict (states fsm)) (index_dict (alphabet fsm))
              (index_dict (output_alphabet fsm))"
  have "\<exists>ys. ?f t = Inr ys" if t: "t \<in> set (transitions fsm)" for t
  proof -
    from res t have r: "mealy_resolvable fsm t" by blast
    then obtain src where s: "getitem_s (index_dict (states fsm)) (t_from t) = Inr src"
      using index_dict_None [of "states fsm" "t_from t"]
      by (auto simp: mealy_resolvable_def getitem_s_def split: option.splits)
    from r obtain inp where i: "input_id (index_dict (alphabet fsm)) (t_input t) = Inr inp"
      using input_id_total [where i = "t_input t" and alph = "alphabet fsm"] by (auto simp: mealy_resolvable_def)
    from r obtain first rest where f: "targets_of (t_to t) = first # rest"
      "first \<in> set (states fsm)"
      by (auto simp: mealy_resolvable_def split: list.splits)
    then obtain tgt where g: "getitem_s (index_dict (states fsm)) first = Inr tgt"
      using index_dict_None [of "states fsm" first]
      by (auto simp: getitem_s_def split: option.splits)
    show ?thesis using assms s i f g by (simp add: transition_recs_mealy)
  qed
  then obtain trans where "collect ?f (transitions fsm) = Inr trans"
    using collect_total [of "transitions fsm" ?f] by blast
  moreover obtain decls where
    "state_decl_recs fsm (index_dict (states fsm)) (index_dict (output_alphabet fsm)) = Inr decls"
    using state_decl_recs_total by blast
  ultimately show "\<exists>r. fsm_to_hex fsm = Inr r"
    by (simp add: fsm_to_hex_def fsm_to_recs_def Let_def)
qed

theorem mealy_multi_target_truncation_witness:
  "fsm_to_hex
     \<lparr> fsm_type = ''mealy'', name = [], description = [],
       states = [ustr ''A'', ustr ''B'', ustr ''C''], alphabet = [ustr ''x''],
       initial = Some (ustr ''A''), accepting = [],
       transitions = [\<lparr> t_from = ustr ''A'', t_input = Some (ustr ''x''),
                        t_to = Multi [ustr ''B'', ustr ''C'', ustr ''A''],
                        t_output = Value (ustr ''q'') \<rparr>],
       state_outputs = [], output_alphabet = [ustr ''p'', ustr ''q''] \<rparr>
   = Inr ([''0002 0000:0001 0000:0000'', ''0001 0000:0000 0001:0001''],
          [(0, ustr ''A''), (1, ustr ''B''), (2, ustr ''C'')], [(0, ustr ''x'')],
          [(0, ustr ''p''), (1, ustr ''q'')]) \<and>
   fsm_to_hex
     \<lparr> fsm_type = ''mealy'', name = [], description = [],
       states = [ustr ''A'', ustr ''B'', ustr ''C''], alphabet = [ustr ''x''],
       initial = Some (ustr ''A''), accepting = [],
       transitions = [\<lparr> t_from = ustr ''A'', t_input = Some (ustr ''x''),
                        t_to = Single (ustr ''B''), t_output = Value (ustr ''q'') \<rparr>],
       state_outputs = [], output_alphabet = [ustr ''p'', ustr ''q''] \<rparr>
   = Inr ([''0002 0000:0001 0000:0000'', ''0001 0000:0000 0001:0001''],
          [(0, ustr ''A''), (1, ustr ''B''), (2, ustr ''C'')], [(0, ustr ''x'')],
          [(0, ustr ''p''), (1, ustr ''q'')])"
proof -
  let ?m = "\<lparr> fsm_type = ''mealy'', name = [], description = [],
       states = [ustr ''A'', ustr ''B'', ustr ''C''], alphabet = [ustr ''x''],
       initial = Some (ustr ''A''), accepting = [],
       transitions = [\<lparr> t_from = ustr ''A'', t_input = Some (ustr ''x''),
                        t_to = Multi [ustr ''B'', ustr ''C'', ustr ''A''],
                        t_output = Value (ustr ''q'') \<rparr>],
       state_outputs = [], output_alphabet = [ustr ''p'', ustr ''q''] \<rparr>"
  have k: "fsm_type ?m = ''mealy''" by simp
  have e: "fsm_to_hex ?m = Inr ([''0002 0000:0001 0000:0000'', ''0001 0000:0000 0001:0001''],
          [(0, ustr ''A''), (1, ustr ''B''), (2, ustr ''C'')], [(0, ustr ''x'')],
          [(0, ustr ''p''), (1, ustr ''q'')])"
    by (simp add: model_eval codec_eval)
  from mealy_multi_target_truncation [OF k]
  have "fsm_to_hex ?m = fsm_to_hex (?m \<lparr> transitions := map keep_first (transitions ?m) \<rparr>)"
    by blast
  then have "fsm_to_hex (?m \<lparr> transitions := map keep_first (transitions ?m) \<rparr>) =
             Inr ([''0002 0000:0001 0000:0000'', ''0001 0000:0000 0001:0001''],
          [(0, ustr ''A''), (1, ustr ''B''), (2, ustr ''C'')], [(0, ustr ''x'')],
          [(0, ustr ''p''), (1, ustr ''q'')])"
    using e by simp
  then show ?thesis using e by (simp add: keep_first_def)
qed

text \<open>
  C10 (decoded-model well-formedness). Decoding returns a model exactly when every record
  text parses and every key of the label table is an integer, whatever the records say;
  and the model it returns always has its initial state, its accepting states and the
  source and targets of every transition among its states, every input name of a
  transition in its alphabet, and every output name of a transition or of a state in its
  output alphabet.
\<close>

theorem decoded_model_well_formed:
  assumes "set_iteration set_order"
  shows "((\<exists>m. hex_to_fsm set_order records lbls = Inr m) \<longleftrightarrow> records_ok records \<and> labels_ok lbls) \<and>
         (\<forall>m. hex_to_fsm set_order records lbls = Inr m \<longrightarrow> well_formed m)"
proof (intro conjI allI impI)
  show "(\<exists>m. hex_to_fsm set_order records lbls = Inr m) \<longleftrightarrow> records_ok records \<and> labels_ok lbls"
    using assms by (rule hex_to_fsm_total_iff)
next
  fix m assume "hex_to_fsm set_order records lbls = Inr m"
  from hex_to_fsm_Inr [OF assms this] obtain sl il ol recs where
    m: "m = fsm_of_dstate set_order (get_default lbls no_labels) sl il ol
              (final_flush (decode_recs init_dstate recs))"
    by blast
  have "dstate_ok (final_flush (decode_recs init_dstate recs))"
    by (intro dstate_ok_final_flush dstate_ok_recs dstate_ok_init)
  then show "well_formed m"
    unfolding m using assms by (rule fsm_of_dstate_wf)
qed

theorem decoded_model_well_formed_witness:
  "set_iteration (\<lambda>xs. xs) \<and>
   hex_to_fsm (\<lambda>xs. xs)
     [''0002 0000:0003 0002:0000'', ''0003 0000:0001 0001:0001'', ''0003 0000:0001 0002:0001'',
      ''0001 0002:FFFF 0000:0005'']
     (Some \<lparr> l_type = None, l_name = None, l_description = None,
             l_states = [(KStr ''0x0001'', ustr ''B''), (KInt 0, ustr ''A'')], l_inputs = [],
             l_outputs = [] \<rparr>)
   = Inr \<lparr> fsm_type = ''mealy'', name = [], description = [],
           states = [ustr ''A'', ustr ''B'', ustr ''S2''], alphabet = [ustr ''i1''],
           initial = Some (ustr ''A''), accepting = [ustr ''A''],
           transitions =
             [\<lparr> t_from = ustr ''S2'', t_input = None, t_to = Single (ustr ''A''),
                 t_output = Value (ustr ''o5'') \<rparr>,
              \<lparr> t_from = ustr ''A'', t_input = Some (ustr ''i1''),
                 t_to = Multi [ustr ''B'', ustr ''S2''], t_output = Absent \<rparr>],
           state_outputs = [], output_alphabet = [ustr ''o1'', ustr ''o5''] \<rparr> \<and>
   well_formed
     \<lparr> fsm_type = ''mealy'', name = [], description = [],
       states = [ustr ''A'', ustr ''B'', ustr ''S2''], alphabet = [ustr ''i1''],
       initial = Some (ustr ''A''), accepting = [ustr ''A''],
       transitions =
         [\<lparr> t_from = ustr ''S2'', t_input = None, t_to = Single (ustr ''A''),
             t_output = Value (ustr ''o5'') \<rparr>,
          \<lparr> t_from = ustr ''A'', t_input = Some (ustr ''i1''),
             t_to = Multi [ustr ''B'', ustr ''S2''], t_output = Absent \<rparr>],
       state_outputs = [], output_alphabet = [ustr ''o1'', ustr ''o5''] \<rparr>"
proof -
  have s: "set_iteration (\<lambda>xs. xs)" by (simp add: set_iteration_def)
  have e: "hex_to_fsm (\<lambda>xs. xs)
     [''0002 0000:0003 0002:0000'', ''0003 0000:0001 0001:0001'', ''0003 0000:0001 0002:0001'',
      ''0001 0002:FFFF 0000:0005'']
     (Some \<lparr> l_type = None, l_name = None, l_description = None,
             l_states = [(KStr ''0x0001'', ustr ''B''), (KInt 0, ustr ''A'')], l_inputs = [],
             l_outputs = [] \<rparr>)
   = Inr \<lparr> fsm_type = ''mealy'', name = [], description = [],
           states = [ustr ''A'', ustr ''B'', ustr ''S2''], alphabet = [ustr ''i1''],
           initial = Some (ustr ''A''), accepting = [ustr ''A''],
           transitions =
             [\<lparr> t_from = ustr ''S2'', t_input = None, t_to = Single (ustr ''A''),
                 t_output = Value (ustr ''o5'') \<rparr>,
              \<lparr> t_from = ustr ''A'', t_input = Some (ustr ''i1''),
                 t_to = Multi [ustr ''B'', ustr ''S2''], t_output = Absent \<rparr>],
           state_outputs = [], output_alphabet = [ustr ''o1'', ustr ''o5''] \<rparr>"
    by (simp add: decoder_eval codec_eval)
  from decoded_model_well_formed [OF s] e s show ?thesis by blast
qed

text \<open>
  C6 (type inference priority). The kind of the decoded model is the type given in the
  \<^verbatim>\<open>[fsm]\<close> metadata of the label table when there is one (the empty string counts as
  none, since the code tests its truth value); otherwise it is mealy if a
  \<open>MEALY_TRANSITION\<close> record was seen, else moore if a state declaration had a non-zero
  output field, else nfa if an \<open>NFA_MULTI\<close> record was seen or a decoded transition has no
  input, else dfa. So Mealy wins over Moore when both are seen.
\<close>

theorem type_inference_priority:
  assumes "set_iteration set_order"
    and "hex_to_fsm set_order records lbls = Inr m"
  shows "\<exists>recs. mapM parse_record records = Inr recs \<and>
           fsm_type m =
             (let inferred =
                    (if saw_mealy recs then ''mealy''
                     else if saw_state_output recs then ''moore''
                     else if saw_nfa_multi recs \<or> (\<exists>t \<in> set (transitions m). t_input t = None)
                     then ''nfa'' else ''dfa'')
              in case lbls of
                   None \<Rightarrow> inferred
                 | Some lb \<Rightarrow> (case l_type lb of
                                None \<Rightarrow> inferred
                              | Some t \<Rightarrow> if t \<noteq> [] then t else inferred))"
proof -
  from hex_to_fsm_Inr [OF assms] obtain sl il ol recs where
    p: "mapM parse_record records = Inr recs" and
    m: "m = fsm_of_dstate set_order (get_default lbls no_labels) sl il ol
              (final_flush (decode_recs init_dstate recs))"
    by blast
  let ?st = "final_flush (decode_recs init_dstate recs)"
  have t: "(\<exists>t \<in> set (transitions m). t_input t = None) \<longleftrightarrow>
           (\<exists>t \<in> set (transitions_d ?st). it_input t = None)"
    unfolding m fsm_of_dstate_fields by (auto simp: name_it_fields)
  have "fsm_type m = decoded_type (get_default lbls no_labels) ?st"
    unfolding m by (simp add: fsm_of_dstate_fields)
  then have "fsm_type m =
             (let inferred =
                    (if saw_mealy recs then ''mealy''
                     else if saw_state_output recs then ''moore''
                     else if saw_nfa_multi recs \<or> (\<exists>t \<in> set (transitions m). t_input t = None)
                     then ''nfa'' else ''dfa'')
              in case lbls of
                   None \<Rightarrow> inferred
                 | Some lb \<Rightarrow> (case l_type lb of
                                None \<Rightarrow> inferred
                              | Some t \<Rightarrow> if t \<noteq> [] then t else inferred))"
    unfolding t decoded_type_def infer_type_final Let_def
    by (cases lbls) (simp_all add: get_default_def)
  with p show ?thesis by blast
qed

theorem type_inference_priority_witness:
  "set_iteration (\<lambda>xs. xs) \<and>
   hex_to_fsm (\<lambda>xs. xs)
     [''0002 0000:0003 0002:0000'', ''0003 0000:0001 0001:0001'', ''0003 0000:0001 0002:0001'',
      ''0001 0002:FFFF 0000:0005'']
     None
   = Inr \<lparr> fsm_type = ''mealy'', name = [], description = [],
           states = [ustr ''S0'', ustr ''S1'', ustr ''S2''], alphabet = [ustr ''i1''],
           initial = Some (ustr ''S0''), accepting = [ustr ''S0''],
           transitions =
             [\<lparr> t_from = ustr ''S2'', t_input = None, t_to = Single (ustr ''S0''),
                 t_output = Value (ustr ''o5'') \<rparr>,
              \<lparr> t_from = ustr ''S0'', t_input = Some (ustr ''i1''),
                 t_to = Multi [ustr ''S1'', ustr ''S2''], t_output = Absent \<rparr>],
           state_outputs = [], output_alphabet = [ustr ''o1'', ustr ''o5''] \<rparr> \<and>
   saw_mealy [(2, 0, 3, 2, 0), (3, 0, 1, 1, 1), (3, 0, 1, 2, 1), (1, 2, 65535, 0, 5)] \<and>
   saw_state_output [(2, 0, 3, 2, 0), (3, 0, 1, 1, 1), (3, 0, 1, 2, 1), (1, 2, 65535, 0, 5)]"
proof -
  let ?records = "[''0002 0000:0003 0002:0000'', ''0003 0000:0001 0001:0001'',
                   ''0003 0000:0001 0002:0001'', ''0001 0002:FFFF 0000:0005'']"
  let ?m = "\<lparr> fsm_type = ''mealy'', name = [], description = [],
           states = [ustr ''S0'', ustr ''S1'', ustr ''S2''], alphabet = [ustr ''i1''],
           initial = Some (ustr ''S0''), accepting = [ustr ''S0''],
           transitions =
             [\<lparr> t_from = ustr ''S2'', t_input = None, t_to = Single (ustr ''S0''),
                 t_output = Value (ustr ''o5'') \<rparr>,
              \<lparr> t_from = ustr ''S0'', t_input = Some (ustr ''i1''),
                 t_to = Multi [ustr ''S1'', ustr ''S2''], t_output = Absent \<rparr>],
           state_outputs = [], output_alphabet = [ustr ''o1'', ustr ''o5''] \<rparr>"
  have s: "set_iteration (\<lambda>xs. xs)" by (simp add: set_iteration_def)
  have e: "hex_to_fsm (\<lambda>xs. xs) ?records None = Inr ?m"
    by (simp add: decoder_eval codec_eval)
  have p: "mapM parse_record ?records =
           Inr [(2, 0, 3, 2, 0), (3, 0, 1, 1, 1), (3, 0, 1, 2, 1), (1, 2, 65535, 0, 5)]"
    by (simp add: codec_eval)
  from type_inference_priority [OF s e] p
  have "fsm_type ?m =
          (if saw_mealy [(2, 0, 3, 2, 0), (3, 0, 1, 1, 1), (3, 0, 1, 2, 1), (1, 2, 65535, 0, 5)]
           then ''mealy''
           else if saw_state_output
                     [(2, 0, 3, 2, 0), (3, 0, 1, 1, 1), (3, 0, 1, 2, 1), (1, 2, 65535, 0, 5)]
           then ''moore''
           else if saw_nfa_multi
                     [(2, 0, 3, 2, 0), (3, 0, 1, 1, 1), (3, 0, 1, 2, 1), (1, 2, 65535, 0, 5)] \<or>
                   (\<exists>t \<in> set (transitions ?m). t_input t = None)
           then ''nfa'' else ''dfa'')"
    by (simp add: Let_def)
  moreover have "saw_mealy [(2, 0, 3, 2, 0), (3, 0, 1, 1, 1), (3, 0, 1, 2, 1), (1, 2, 65535, 0, 5)]"
    "saw_state_output [(2, 0, 3, 2, 0), (3, 0, 1, 1, 1), (3, 0, 1, 2, 1), (1, 2, 65535, 0, 5)]"
    by (simp_all add: saw_mealy_def saw_state_output_def)
  ultimately show ?thesis using s e by blast
qed




end
